theory Spec2Isabelle
  imports Complex_Main "HOL-Library.Log_Nat" "HOL-Library.Multiset"
begin

section \<open>JavaScript numbers\<close>

text \<open>
  Every number of \<^verbatim>\<open>server.js\<close> is a JavaScript Number, an IEEE-754 binary64 value.
  A finite Number is a real of the form \<open>m * 2 powi k\<close> with \<open>\<bar>m\<bar> \<le> 2 ^ 53\<close>, and each
  arithmetic operation returns the exact result rounded to the nearest such value, ties
  going to the even significand. \<open>fl\<close> is that rounding: \<open>expo x\<close> is the binary exponent
  of \<open>x\<close>, \<open>quantum x\<close> the spacing of the Numbers around \<open>x\<close> (clamped at the subnormal
  spacing \<open>2 powi - 1074\<close>), and \<open>rne\<close> rounds to the nearest integer, ties to even.
  Overflow to \<^verbatim>\<open>Infinity\<close> (results of \<open>2 ^ 1024\<close> and more) is outside the model; it
  takes a population beyond \<open>10 ^ 300\<close> to reach that range. A division by zero, which
  gives \<^verbatim>\<open>Infinity\<close> or \<^verbatim>\<open>NaN\<close>, is outside it too: every capacity below is positive.
\<close>

definition rne :: "real \<Rightarrow> int" where
  "rne q = (let f = \<lfloor>q\<rfloor>; d = q - of_int f in
     if d < 1/2 then f else if 1/2 < d then f + 1 else if even f then f else f + 1)"

definition expo :: "real \<Rightarrow> int" where
  "expo x = (if 1 \<le> x then bitlen \<lfloor>x\<rfloor> - 1 else - bitlen (\<lceil>1 / x\<rceil> - 1))"

definition qexp :: "real \<Rightarrow> int" where
  "qexp x = max (expo x) (- 1022) - 52"

definition quantum :: "real \<Rightarrow> real" where
  "quantum x = 2 powi (qexp x)"

definition fl :: "real \<Rightarrow> real" where
  "fl x = (if x = 0 then 0 else sgn x * (of_int (rne (\<bar>x\<bar> / quantum \<bar>x\<bar>)) * quantum \<bar>x\<bar>))"

text \<open>The operators \<^verbatim>\<open>/\<close>, \<^verbatim>\<open>*\<close> and \<^verbatim>\<open>+\<close> on Numbers.\<close>

definition num_div :: "real \<Rightarrow> real \<Rightarrow> real" where
  "num_div a b = fl (a / b)"

definition num_mul :: "real \<Rightarrow> real \<Rightarrow> real" where
  "num_mul a b = fl (a * b)"

definition num_add :: "real \<Rightarrow> real \<Rightarrow> real" where
  "num_add a b = fl (a + b)"

text \<open>A value is a Number when rounding leaves it alone.\<close>

definition is_number :: "real \<Rightarrow> bool" where
  "is_number x \<longleftrightarrow> fl x = x"

section \<open>Data model\<close>

text \<open>An entry of the \<^verbatim>\<open>ZONES\<close> table: \<^verbatim>\<open>{ id, name, capacity }\<close>.\<close>

record zone =
  zone_id :: string
  zone_name :: string
  zone_capacity :: int

text \<open>
  The objects built by \<^verbatim>\<open>generateNetworkActivity\<close> and \<^verbatim>\<open>applyDBSCAN\<close> share four
  fields; the first adds \<^verbatim>\<open>coordinates\<close>, the second \<^verbatim>\<open>density\<close>, \<^verbatim>\<open>cluster\<close>,
  \<^verbatim>\<open>status\<close> and \<^verbatim>\<open>timestamp\<close>. \<^verbatim>\<open>population\<close> and \<^verbatim>\<open>density\<close> come out of
  \<^verbatim>\<open>Math.floor\<close> and are integers; a timestamp is a \<^verbatim>\<open>Date\<close>, held as its milliseconds
  since the epoch.
\<close>

record zone_info =
  zoneId :: string
  zoneName :: string
  population :: int
  capacity :: int

record signal = zone_info +
  coordinates :: "real \<times> real"

datatype crowd_status = Normal | Moderate | Overcrowded

record reading = zone_info +
  density :: int
  cluster :: int
  status :: crowd_status
  timestamp :: int

definition ZONES :: "zone list" where
  "ZONES =
    [\<lparr>zone_id = ''AB1'', zone_name = ''AB1'', zone_capacity = 5880\<rparr>,
     \<lparr>zone_id = ''AB2'', zone_name = ''AB2'', zone_capacity = 250\<rparr>,
     \<lparr>zone_id = ''AB3'', zone_name = ''AB3'', zone_capacity = 5880\<rparr>,
     \<lparr>zone_id = ''AB4'', zone_name = ''AB4'', zone_capacity = 5880\<rparr>,
     \<lparr>zone_id = ''Library'', zone_name = ''Library'', zone_capacity = 300\<rparr>,
     \<lparr>zone_id = ''Admin'', zone_name = ''Admin Block'', zone_capacity = 250\<rparr>,
     \<lparr>zone_id = ''North'', zone_name = ''North Square'', zone_capacity = 200\<rparr>,
     \<lparr>zone_id = ''Gazebo'', zone_name = ''Gazebo'', zone_capacity = 200\<rparr>,
     \<lparr>zone_id = ''MBA'', zone_name = ''MBA Amphitheater'', zone_capacity = 150\<rparr>]"

section \<open>The simulator\<close>

text \<open>
  \<^verbatim>\<open>generateNetworkActivity\<close> maps over \<^verbatim>\<open>ZONES\<close> and calls \<^verbatim>\<open>Math.random()\<close> three times
  per zone: for the variance, for \<^verbatim>\<open>x\<close> and for \<^verbatim>\<open>y\<close>. The argument \<open>random\<close> is the
  sequence of values these calls return, so zone number \<open>i\<close> reads \<open>random (3 * i)\<close>,
  \<open>random (3 * i + 1)\<close> and \<open>random (3 * i + 2)\<close>. The literal \<^verbatim>\<open>0.3\<close> denotes the
  Number nearest to three tenths, \<open>fl (3 / 10)\<close>; \<^verbatim>\<open>0.5\<close> and \<^verbatim>\<open>100\<close> are exact.
  \<open>simulatedPopulation r c\<close> is the population computed from the capacity \<open>c\<close> and the
  random value \<open>r\<close>.
\<close>

definition simulatedPopulation :: "real \<Rightarrow> int \<Rightarrow> int" where
  "simulatedPopulation r c =
     (let basePopulation = num_mul (of_int c) (fl (3 / 10));
          variance = num_mul (num_mul r (of_int c)) (1 / 2)
      in \<lfloor>num_add basePopulation variance\<rfloor>)"

definition sample :: "(nat \<Rightarrow> real) \<Rightarrow> nat \<times> zone \<Rightarrow> signal" where
  "sample random = (\<lambda>(i, zone).
     let pop = simulatedPopulation (random (3 * i)) (zone_capacity zone);
         x = num_mul (random (3 * i + 1)) 100;
         y = num_mul (random (3 * i + 2)) 100
     in \<lparr>zoneId = zone_id zone, zoneName = zone_name zone, population = pop,
         capacity = zone_capacity zone, coordinates = (x, y)\<rparr>)"

definition generateNetworkActivity :: "(nat \<Rightarrow> real) \<Rightarrow> signal list" where
  "generateNetworkActivity random = map (sample random) (enumerate 0 ZONES)"

section \<open>Clustering and classification\<close>

text \<open>
  The \<^verbatim>\<open>forEach\<close> over the clusters returned by the library: \<^verbatim>\<open>clusterId\<close> starts at
  \<open>- 1\<close> and the callback \<open>visit\<close> overwrites it with the index of every cluster that
  includes \<open>idx\<close>.
\<close>

definition visit :: "nat \<Rightarrow> nat \<times> nat list \<Rightarrow> int \<Rightarrow> int" where
  "visit idx = (\<lambda>(clusterIdx, cluster) clusterId.
     if idx \<in> set cluster then int clusterIdx else clusterId)"

definition clusterIdOf :: "nat list list \<Rightarrow> nat \<Rightarrow> int" where
  "clusterIdOf clusters idx = fold (visit idx) (enumerate 0 clusters) (- 1)"

text \<open>\<^verbatim>\<open>Math.floor((zone.population / zone.capacity) * 120)\<close>\<close>

definition densityOf :: "int \<Rightarrow> int \<Rightarrow> int" where
  "densityOf p c = \<lfloor>num_mul (num_div (of_int p) (of_int c)) 120\<rfloor>"

text \<open>\<^verbatim>\<open>(zone.population / zone.capacity) * 100\<close> and the two strict comparisons.\<close>

definition percentage :: "int \<Rightarrow> int \<Rightarrow> real" where
  "percentage p c = num_mul (num_div (of_int p) (of_int c)) 100"

definition statusOf :: "int \<Rightarrow> int \<Rightarrow> crowd_status" where
  "statusOf p c =
     (if 85 < percentage p c then Overcrowded
      else if 60 < percentage p c then Moderate
      else Normal)"

text \<open>
  \<^verbatim>\<open>applyDBSCAN\<close>. The clustering library is not part of the repository: \<open>run\<close> stands
  for \<^verbatim>\<open>new DBSCAN().run\<close>, which receives the coordinates, the radius \<open>30\<close> and the
  minimum cluster size \<open>2\<close> and returns the clusters as lists of point indices.
  \<open>now idx\<close> is the value of the \<^verbatim>\<open>new Date()\<close> evaluated for zone number \<open>idx\<close>.
\<close>

definition classify :: "nat list list \<Rightarrow> (nat \<Rightarrow> int) \<Rightarrow> nat \<times> signal \<Rightarrow> reading" where
  "classify clusters now = (\<lambda>(idx, zone).
     let clusterId = clusterIdOf clusters idx
     in \<lparr>zoneId = zoneId zone, zoneName = zoneName zone, population = population zone,
         capacity = capacity zone,
         density = densityOf (population zone) (capacity zone),
         cluster = (if clusterId = - 1 then 0 else clusterId + 1),
         status = statusOf (population zone) (capacity zone),
         timestamp = now idx\<rparr>)"

definition applyDBSCAN ::
  "((real \<times> real) list \<Rightarrow> real \<Rightarrow> nat \<Rightarrow> nat list list) \<Rightarrow> (nat \<Rightarrow> int) \<Rightarrow> signal list \<Rightarrow> reading list" where
  "applyDBSCAN run now zoneData =
     (let coords = map coordinates zoneData;
          clusters = run coords 30 2
      in map (classify clusters now) (enumerate 0 zoneData))"

section \<open>Server state, persistence and broadcast\<close>

text \<open>
  The state the handlers share: the documents of the \<^verbatim>\<open>Zone\<close> collection in insertion
  order, the connected sockets, every \<^verbatim>\<open>zoneUpdate\<close> event delivered so far with the
  socket that received it, and the lines written to the console.
\<close>

record server =
  store :: "reading list"
  clients :: "nat list"
  outbox :: "(nat \<times> reading list) list"
  console :: "string list"

text \<open>
  What one firing of the timer reads from outside: the values of \<^verbatim>\<open>Math.random()\<close>,
  the clustering library, the clock, and the fate of \<^verbatim>\<open>Zone.insertMany\<close>: \<open>None\<close> when
  it resolves, \<open>Some k\<close> when it rejects after \<open>k\<close> documents were written.
\<close>

record env =
  random :: "nat \<Rightarrow> real"
  dbscan :: "(real \<times> real) list \<Rightarrow> real \<Rightarrow> nat \<Rightarrow> nat list list"
  now :: "nat \<Rightarrow> int"
  fault :: "nat option"

definition insertMany :: "nat option \<Rightarrow> reading list \<Rightarrow> reading list \<Rightarrow> reading list \<times> bool" where
  "insertMany flt docs coll =
     (case flt of None \<Rightarrow> (coll @ docs, True) | Some k \<Rightarrow> (coll @ take k docs, False))"

text \<open>\<^verbatim>\<open>saveZoneData\<close>: the \<^verbatim>\<open>catch\<close> block logs the error and returns normally.\<close>

definition saveZoneData :: "nat option \<Rightarrow> reading list \<Rightarrow> server \<Rightarrow> server" where
  "saveZoneData flt zoneData s =
     (case insertMany flt zoneData (store s) of
        (coll, True) \<Rightarrow> s\<lparr>store := coll, console := console s @ [''Zone data saved to MongoDB'']\<rparr>
      | (coll, False) \<Rightarrow> s\<lparr>store := coll, console := console s @ [''Error saving zone data'']\<rparr>)"

text \<open>\<^verbatim>\<open>io.emit\<close> reaches every connected socket, \<^verbatim>\<open>socket.emit\<close> only its own.\<close>

definition io_emit :: "reading list \<Rightarrow> server \<Rightarrow> server" where
  "io_emit payload s = s\<lparr>outbox := outbox s @ map (\<lambda>c. (c, payload)) (clients s)\<rparr>"

definition socket_emit :: "nat \<Rightarrow> reading list \<Rightarrow> server \<Rightarrow> server" where
  "socket_emit sid payload s = s\<lparr>outbox := outbox s @ [(sid, payload)]\<rparr>"

definition console_log :: "string \<Rightarrow> server \<Rightarrow> server" where
  "console_log line s = s\<lparr>console := console s @ [line]\<rparr>"

text \<open>The callback of \<^verbatim>\<open>setInterval\<close> in \<^verbatim>\<open>startRealTimeUpdates\<close>.\<close>

definition tick :: "env \<Rightarrow> server \<Rightarrow> server" where
  "tick e s =
     (let s0 = console_log ''Generating new crowd data...'' s;
          networkData = generateNetworkActivity (random e);
          clusteredData = applyDBSCAN (dbscan e) (now e) networkData;
          s1 = saveZoneData (fault e) clusteredData s0;
          s2 = io_emit clusteredData s1
      in console_log ''Data broadcasted to clients'' s2)"

text \<open>
  The timer calls the callback once per interval, with no condition on how earlier calls
  ended; \<open>envs\<close> lists what the successive calls read.
\<close>

definition startRealTimeUpdates :: "env list \<Rightarrow> server \<Rightarrow> server" where
  "startRealTimeUpdates envs s = fold tick envs s"

text \<open>The handler of \<^verbatim>\<open>requestUpdate\<close> on the socket \<open>sid\<close>.\<close>

definition requestUpdate :: "nat \<Rightarrow> env \<Rightarrow> server \<Rightarrow> server" where
  "requestUpdate sid e s =
     (let networkData = generateNetworkActivity (random e);
          clusteredData = applyDBSCAN (dbscan e) (now e) networkData
      in socket_emit sid clusteredData s)"

section \<open>Queries\<close>

text \<open>
  A row of the \<^verbatim>\<open>$group\<close> stage: the grouping key under \<^verbatim>\<open>_id\<close> and the \<^verbatim>\<open>$first\<close> of
  seven fields. The row has no \<^verbatim>\<open>zoneId\<close> key.
\<close>

record zone_row =
  row_id :: string
  row_zoneName :: string
  row_population :: int
  row_density :: int
  row_cluster :: int
  row_capacity :: int
  row_status :: crowd_status
  row_timestamp :: int

definition toRow :: "reading \<Rightarrow> zone_row" where
  "toRow d = \<lparr>row_id = zoneId d, row_zoneName = zoneName d, row_population = population d,
     row_density = density d, row_cluster = cluster d, row_capacity = capacity d,
     row_status = status d, row_timestamp = timestamp d\<rparr>"

text \<open>
  \<^verbatim>\<open>{ $sort: { timestamp: -1 } }\<close> orders the documents by falling timestamp; documents
  with equal timestamps are kept here in insertion order. \<^verbatim>\<open>$group\<close> with \<^verbatim>\<open>$first\<close> keeps,
  for every key, the first document of that order.
\<close>

definition sortDesc :: "reading list \<Rightarrow> reading list" where
  "sortDesc docs = sort_key (\<lambda>d. - timestamp d) docs"

fun groupFirst :: "reading list \<Rightarrow> reading list" where
  "groupFirst [] = []"
| "groupFirst (d # ds) = d # groupFirst (filter (\<lambda>r. zoneId r \<noteq> zoneId d) ds)"

definition getLatestData :: "reading list \<Rightarrow> zone_row list" where
  "getLatestData docs = map toRow (groupFirst (sortDesc docs))"

text \<open>
  \<^verbatim>\<open>getZoneHistory(zoneId, minutes = 15)\<close>: \<^verbatim>\<open>find\<close> with the two conditions, then
  \<^verbatim>\<open>sort({ timestamp: 1 })\<close>. \<open>clock\<close> is \<^verbatim>\<open>Date.now()\<close>.
\<close>

definition getZoneHistory :: "reading list \<Rightarrow> int \<Rightarrow> string \<Rightarrow> int \<Rightarrow> reading list" where
  "getZoneHistory docs clock zid minutes =
     (let cutoffTime = clock - minutes * 60 * 1000
      in sort_key timestamp (filter (\<lambda>d. zoneId d = zid \<and> cutoffTime \<le> timestamp d) docs))"

record summary =
  totalPopulation :: real
  activeZones :: nat
  overcrowdedZones :: nat
  totalZones :: nat

text \<open>
  The three responses and the answer of the \<^verbatim>\<open>catch\<close> blocks (status 500). A query
  fails when the database call throws; \<open>db_error\<close> is \<open>None\<close> when it returns and
  \<open>Some msg\<close> when it throws \<open>msg\<close>.
\<close>

datatype response =
  ZonesOk "zone_row list" int
  | HistoryOk string "reading list" nat
  | SummaryOk summary
  | ServerError string

definition get_zones :: "string option \<Rightarrow> int \<Rightarrow> server \<Rightarrow> response" where
  "get_zones db_error clock s =
     (case db_error of
        Some msg \<Rightarrow> ServerError msg
      | None \<Rightarrow> ZonesOk (getLatestData (store s)) clock)"

definition get_history :: "string option \<Rightarrow> int \<Rightarrow> string \<Rightarrow> server \<Rightarrow> response" where
  "get_history db_error clock zid s =
     (case db_error of
        Some msg \<Rightarrow> ServerError msg
      | None \<Rightarrow>
          (let fifteenMinutesAgo = clock - 15 * 60 * 1000;
               history = sort_key timestamp
                 (filter (\<lambda>d. zoneId d = zid \<and> fifteenMinutesAgo \<le> timestamp d) (store s))
           in HistoryOk zid history (length history)))"

text \<open>
  The summary groups like \<^verbatim>\<open>getLatestData\<close> but keeps only \<^verbatim>\<open>population\<close> and
  \<^verbatim>\<open>status\<close>; \<^verbatim>\<open>reduce\<close> adds the populations from the left with the addition of Numbers.
\<close>

definition summarize :: "reading list \<Rightarrow> summary" where
  "summarize docs =
     (let latestZones = map (\<lambda>d. (zoneId d, population d, status d)) (groupFirst (sortDesc docs))
      in \<lparr>totalPopulation = foldl (\<lambda>sum (i, p, st). num_add sum (of_int p)) 0 latestZones,
          activeZones = length (filter (\<lambda>(i, p, st). 0 < p) latestZones),
          overcrowdedZones = length (filter (\<lambda>(i, p, st). st = Overcrowded) latestZones),
          totalZones = length ZONES\<rparr>)"


section \<open>Notions of the specification\<close>

text \<open>The snapshot of a tick: what \<^verbatim>\<open>clusteredData\<close> holds in \<open>tick\<close> and \<open>requestUpdate\<close>.\<close>

definition snapshot :: "env \<Rightarrow> reading list" where
  "snapshot e = applyDBSCAN (dbscan e) (now e) (generateNetworkActivity (random e))"

text \<open>
  The specification speaks of the most recently appended reading of a zone: the last
  document of that zone in insertion order.
\<close>

definition lastAppended :: "reading list \<Rightarrow> string \<Rightarrow> reading" where
  "lastAppended docs zid = last (filter (\<lambda>d. zoneId d = zid) docs)"

text \<open>Within every zone, timestamps grow strictly along the insertion order.\<close>

definition timeOrdered :: "reading list \<Rightarrow> bool" where
  "timeOrdered docs =
     sorted_wrt (\<lambda>a b. zoneId a = zoneId b \<longrightarrow> timestamp a < timestamp b) docs"

text \<open>
  A reading produced by the pipeline from simulated signals: an element of what
  \<^verbatim>\<open>applyDBSCAN\<close> returns for the output of \<^verbatim>\<open>generateNetworkActivity\<close>, for random
  values in \<open>[0, 1)\<close>, any clustering and any clock.
\<close>

definition simulated :: "reading \<Rightarrow> bool" where
  "simulated d \<longleftrightarrow>
     (\<exists>rnd run clk. (\<forall>k. 0 \<le> rnd k \<and> rnd k < 1)
        \<and> d \<in> set (applyDBSCAN run clk (generateNetworkActivity rnd)))"

section \<open>Rounding: exponent, monotonicity, exact values, error\<close>

lemma int_le_pow2: "(i::int) \<le> 2 ^ k \<Longrightarrow> real_of_int i \<le> 2 ^ k"
  by (metis of_int_le_iff of_int_numeral of_int_power)

lemma pow2_le_int: "2 ^ k \<le> (i::int) \<Longrightarrow> 2 ^ k \<le> real_of_int i"
  by (metis of_int_le_iff of_int_numeral of_int_power)

lemma powi_nonneg: "0 \<le> k \<Longrightarrow> (2::real) powi k = 2 ^ nat k"
  by (simp add: power_int_def)

lemma powi_neg: "0 \<le> k \<Longrightarrow> (2::real) powi (- k) = 1 / 2 ^ nat k"
  by (cases "k = 0") (simp_all add: power_int_def power_one_over inverse_eq_divide)

lemma powi_mono: "a \<le> b \<Longrightarrow> (2::real) powi a \<le> 2 powi b"
  by (rule power_int_increasing) simp_all

lemma powi_pos: "0 < (2::real) powi a"
  by simp

lemma powi_add: "(2::real) powi (a + b) = 2 powi a * 2 powi b"
  by (simp add: power_int_add)

lemma powi_diff: "(2::real) powi (a - b) = 2 powi a / 2 powi b"
  by (simp add: power_int_diff)

lemma expo_ge1:
  assumes "1 \<le> x"
  shows "2 powi (expo x) \<le> x" and "x < 2 powi (expo x + 1)"
proof -
  let ?n = "\<lfloor>x\<rfloor>"
  have n: "0 < ?n" using assms by simp
  have b: "2 ^ nat (bitlen ?n - 1) \<le> ?n" "?n < 2 ^ nat (bitlen ?n)"
    using bitlen_bounds[OF n] by auto
  have k: "1 \<le> bitlen ?n" using n bitlen_eq_zero_iff[of ?n] bitlen_nonneg[of ?n] by linarith
  have e: "expo x = bitlen ?n - 1" using assms by (simp add: expo_def)
  have "(2::real) powi (expo x) = 2 ^ nat (bitlen ?n - 1)"
    using k by (simp add: e power_int_def)
  also have "\<dots> \<le> of_int ?n" using b(1) by (rule pow2_le_int)
  also have "\<dots> \<le> x" by simp
  finally show "2 powi (expo x) \<le> x" .
  have "?n + 1 \<le> 2 ^ nat (bitlen ?n)" using b(2) by simp
  then have "real_of_int (?n + 1) \<le> 2 ^ nat (bitlen ?n)" by (rule int_le_pow2)
  moreover have "x < of_int (?n + 1)" by linarith
  ultimately have "x < 2 ^ nat (bitlen ?n)" by linarith
  moreover have "(2::real) powi (expo x + 1) = 2 ^ nat (bitlen ?n)"
    using k by (simp add: e power_int_def)
  ultimately show "x < 2 powi (expo x + 1)" by simp
qed

lemma expo_lt1:
  assumes "0 < x" "x < 1"
  shows "2 powi (expo x) \<le> x" and "x < 2 powi (expo x + 1)"
proof -
  let ?m = "\<lceil>1 / x\<rceil> - 1"
  have ix: "1 < 1 / x" using assms by simp
  then have m: "0 < ?m" by linarith
  have b: "2 ^ nat (bitlen ?m - 1) \<le> ?m" "?m < 2 ^ nat (bitlen ?m)"
    using bitlen_bounds[OF m] by auto
  have k: "1 \<le> bitlen ?m" using m bitlen_eq_zero_iff[of ?m] bitlen_nonneg[of ?m] by linarith
  have e: "expo x = - bitlen ?m" using assms by (simp add: expo_def)
  have m1: "of_int ?m < 1 / x" by linarith
  have m2: "1 / x \<le> of_int (?m + 1)" by simp
  have "?m + 1 \<le> 2 ^ nat (bitlen ?m)" using b(2) by simp
  then have "real_of_int (?m + 1) \<le> 2 ^ nat (bitlen ?m)" by (rule int_le_pow2)
  then have "1 / x \<le> 2 ^ nat (bitlen ?m)" using m2 by linarith
  then have "1 \<le> 2 ^ nat (bitlen ?m) * x" using assms(1) by (simp add: pos_divide_le_eq)
  then have "1 / 2 ^ nat (bitlen ?m) \<le> x" by (simp add: pos_divide_le_eq mult.commute)
  moreover have "(2::real) powi (expo x) = 1 / 2 ^ nat (bitlen ?m)"
    using k by (simp add: e powi_neg)
  ultimately show "2 powi (expo x) \<le> x" by simp
  have "2 ^ nat (bitlen ?m - 1) \<le> real_of_int ?m" using b(1) by (rule pow2_le_int)
  then have "2 ^ nat (bitlen ?m - 1) < 1 / x" using m1 by linarith
  then have "2 ^ nat (bitlen ?m - 1) * x < 1" using assms(1) by (simp add: pos_less_divide_eq)
  then have "x < 1 / 2 ^ nat (bitlen ?m - 1)" by (simp add: pos_less_divide_eq mult.commute)
  moreover have "(2::real) powi (expo x + 1) = 1 / 2 ^ nat (bitlen ?m - 1)"
  proof -
    have "expo x + 1 = - (bitlen ?m - 1)" using e by simp
    moreover have "0 \<le> bitlen ?m - 1" using k by simp
    ultimately show ?thesis
      by (simp only: powi_neg)
  qed
  ultimately show "x < 2 powi (expo x + 1)" by simp
qed

lemma expo_bounds:
  assumes "0 < x"
  shows "2 powi (expo x) \<le> x" and "x < 2 powi (expo x + 1)"
  using expo_ge1[of x] expo_lt1[of x] assms by (cases "1 \<le> x"; simp)+

lemma expo_mono:
  assumes "0 < x" "x \<le> y"
  shows "expo x \<le> expo y"
proof (rule ccontr)
  assume "\<not> expo x \<le> expo y"
  then have "expo y + 1 \<le> expo x" by simp
  then have "(2::real) powi (expo y + 1) \<le> 2 powi (expo x)" by (rule powi_mono)
  also have "\<dots> \<le> x" using assms(1) by (rule expo_bounds)
  also have "\<dots> \<le> y" by fact
  finally show False using expo_bounds(2)[of y] assms by simp
qed

lemma expo_less:
  assumes "0 < x" "x < 2 powi k"
  shows "expo x < k"
proof (rule ccontr)
  assume "\<not> expo x < k"
  then have "(2::real) powi k \<le> 2 powi (expo x)" by (intro powi_mono) simp
  also have "\<dots> \<le> x" using assms(1) by (rule expo_bounds)
  finally show False using assms(2) by simp
qed

lemma expo_ge:
  assumes "2 powi k \<le> x"
  shows "k \<le> expo x"
proof (rule ccontr)
  have x: "0 < x" using assms powi_pos[of k] by linarith
  assume "\<not> k \<le> expo x"
  then have "(2::real) powi (expo x + 1) \<le> 2 powi k" by (intro powi_mono) simp
  then show False using expo_bounds(2)[OF x] assms by simp
qed

lemma rne_cases: "rne q = \<lfloor>q\<rfloor> \<or> rne q = \<lfloor>q\<rfloor> + 1"
  by (simp add: rne_def Let_def)

lemma rne_of_int: "rne (of_int n) = n"
  by (simp add: rne_def)

lemma rne_lower: "q - 1/2 \<le> of_int (rne q)"
  unfolding rne_def Let_def by (auto; linarith)

lemma rne_upper: "of_int (rne q) \<le> q + 1/2"
  unfolding rne_def Let_def by (auto; linarith)

lemma rne_mono:
  assumes "x \<le> y"
  shows "rne x \<le> rne y"
proof (cases "\<lfloor>x\<rfloor> = \<lfloor>y\<rfloor>")
  case True
  then show ?thesis using assms unfolding rne_def Let_def by (auto; linarith)
next
  case False
  then have "\<lfloor>x\<rfloor> + 1 \<le> \<lfloor>y\<rfloor>" using assms floor_mono[of x y] by linarith
  moreover have "rne x \<le> \<lfloor>x\<rfloor> + 1" using rne_cases[of x] by linarith
  moreover have "\<lfloor>y\<rfloor> \<le> rne y" using rne_cases[of y] by linarith
  ultimately show ?thesis by linarith
qed

lemma rne_nonneg: "0 \<le> q \<Longrightarrow> 0 \<le> rne q"
  using rne_mono[of 0 q] rne_of_int[of 0] by simp

lemma fl_pos: "0 < x \<Longrightarrow> fl x = of_int (rne (x / 2 powi (qexp x))) * 2 powi (qexp x)"
  by (simp add: fl_def quantum_def)

lemma fl_zero: "fl 0 = 0"
  by (simp add: fl_def)

lemma fl_nonneg: "0 \<le> x \<Longrightarrow> 0 \<le> fl x"
proof (cases "x = 0")
  case False
  assume "0 \<le> x"
  with False have x: "0 < x" by simp
  have "0 \<le> rne (x / 2 powi (qexp x))" using x by (intro rne_nonneg) simp
  then show ?thesis using x by (simp add: fl_pos)
qed (simp add: fl_zero)

text \<open>Rounding never reorders two values.\<close>

lemma fl_mono_pos:
  assumes x: "0 < x" and xy: "x \<le> y"
  shows "fl x \<le> fl y"
proof -
  have y: "0 < y" using x xy by simp
  let ?a = "qexp x" and ?b = "qexp y"
  have ab: "?a \<le> ?b" using expo_mono[OF x xy] by (simp add: qexp_def)
  show ?thesis
  proof (cases "?a = ?b")
    case True
    have "x / 2 powi ?b \<le> y / 2 powi ?b" using xy by (simp add: divide_right_mono)
    then have "rne (x / 2 powi ?b) \<le> rne (y / 2 powi ?b)" by (rule rne_mono)
    then have "real_of_int (rne (x / 2 powi ?b)) * 2 powi ?b
        \<le> real_of_int (rne (y / 2 powi ?b)) * 2 powi ?b"
      by (simp add: mult_right_mono)
    then show ?thesis using True by (simp add: fl_pos x y)
  next
    case False
    then have lt: "?a < ?b" using ab by simp
    then have b: "?b = expo y - 52" by (simp add: qexp_def max_def split: if_splits)
    have a: "expo x - 52 \<le> ?a" by (simp add: qexp_def)
    define B where "B = (2::real) powi (?b + 52)"
    have "(2::real) powi (expo y) \<le> y" using y by (rule expo_bounds)
    then have "2 powi 52 * 2 powi ?b \<le> y" using b by (simp add: powi_diff)
    then have "2 powi 52 \<le> y / 2 powi ?b" by (simp add: pos_le_divide_eq)
    then have "rne (2 powi 52) \<le> rne (y / 2 powi ?b)" by (rule rne_mono)
    moreover have "rne (2 powi 52) = 2 ^ 52"
    proof -
      have "(2::real) powi 52 = of_int (2 ^ 52)" by simp
      then show ?thesis by (simp only: rne_of_int)
    qed
    ultimately have "(2::int) ^ 52 \<le> rne (y / 2 powi ?b)" by simp
    then have "2 ^ 52 \<le> real_of_int (rne (y / 2 powi ?b))" by (rule pow2_le_int)
    then have "2 ^ 52 * 2 powi ?b \<le> real_of_int (rne (y / 2 powi ?b)) * 2 powi ?b"
      by (simp add: mult_right_mono)
    then have 1: "B \<le> fl y" by (simp add: fl_pos y B_def powi_add mult.commute)
    have d: "0 \<le> ?b + 52 - ?a" using lt by simp
    have "x < 2 powi (expo x + 1)" using x by (rule expo_bounds)
    also have "\<dots> \<le> 2 powi (?b + 52)" using a lt by (intro powi_mono) simp
    finally have "x \<le> 2 powi (?b + 52 - ?a) * 2 powi ?a" by (simp add: powi_diff)
    then have "x / 2 powi ?a \<le> 2 powi (?b + 52 - ?a)" by (simp add: pos_divide_le_eq)
    then have "rne (x / 2 powi ?a) \<le> rne (2 powi (?b + 52 - ?a))" by (rule rne_mono)
    moreover have "rne (2 powi (?b + 52 - ?a)) = 2 ^ nat (?b + 52 - ?a)"
    proof -
      have "(2::real) powi (?b + 52 - ?a) = of_int (2 ^ nat (?b + 52 - ?a))"
        using d by (simp add: powi_nonneg)
      then show ?thesis by (simp only: rne_of_int)
    qed
    ultimately have "rne (x / 2 powi ?a) \<le> 2 ^ nat (?b + 52 - ?a)" by simp
    then have "real_of_int (rne (x / 2 powi ?a)) \<le> 2 ^ nat (?b + 52 - ?a)"
      by (rule int_le_pow2)
    then have "real_of_int (rne (x / 2 powi ?a)) \<le> 2 powi (?b + 52 - ?a)"
      using d by (simp add: powi_nonneg)
    then have "real_of_int (rne (x / 2 powi ?a)) * 2 powi ?a \<le> 2 powi (?b + 52 - ?a) * 2 powi ?a"
      by (simp add: mult_right_mono)
    then have 2: "fl x \<le> B" by (simp add: fl_pos x B_def powi_diff)
    from 1 2 show ?thesis by simp
  qed
qed

lemma fl_mono: "0 \<le> x \<Longrightarrow> x \<le> y \<Longrightarrow> fl x \<le> fl y"
  using fl_mono_pos[of x y] fl_nonneg[of y] by (cases "x = 0") (simp_all add: fl_zero)

text \<open>Every \<open>m * 2 powi k\<close> with a significand of at most 53 bits is a Number.\<close>

lemma fl_repr_lt:
  assumes m: "0 < m" "m < 2 ^ 53" and k: "- 1074 \<le> k"
  shows "fl (of_int m * 2 powi k) = of_int m * 2 powi k"
proof -
  let ?x = "real_of_int m * 2 powi k"
  have x: "0 < ?x" using m by simp
  have "m + 1 \<le> 2 ^ 53" using m by simp
  then have "real_of_int (m + 1) \<le> 2 ^ 53" by (rule int_le_pow2)
  then have "real_of_int m < 2 powi 53" by simp
  then have "?x < 2 powi 53 * 2 powi k" by (simp add: mult_strict_right_mono)
  then have "?x < 2 powi (53 + k)" by (simp add: powi_add)
  then have "expo ?x < 53 + k" using x by (intro expo_less)
  then have q: "qexp ?x \<le> k" using k by (simp add: qexp_def)
  define d where "d = nat (k - qexp ?x)"
  define Q where "Q = (2::real) powi (qexp ?x)"
  define P where "P = (2::real) powi k"
  have Q: "0 < Q" by (simp add: Q_def)
  have kd: "k = qexp ?x + int d" using q by (simp add: d_def)
  have "(2::real) powi k = 2 powi (qexp ?x + int d)" using kd by simp
  then have P: "P = Q * 2 ^ d" by (simp add: P_def Q_def powi_add powi_nonneg)
  have "real_of_int m * P / Q = of_int (m * 2 ^ d)" using Q by (simp add: P)
  then have "rne (real_of_int m * P / Q) = m * 2 ^ d" by (simp only: rne_of_int)
  moreover have "fl ?x = of_int (rne (real_of_int m * P / Q)) * Q"
    using x by (simp only: fl_pos P_def Q_def)
  ultimately have "fl ?x = of_int (m * 2 ^ d) * Q" by simp
  also have "\<dots> = of_int m * P" by (simp add: P)
  finally show ?thesis by (simp add: P_def)
qed

lemma fl_repr:
  assumes m: "0 \<le> m" "m \<le> 2 ^ 53" and k: "- 1074 \<le> k"
  shows "fl (of_int m * 2 powi k) = of_int m * 2 powi k"
proof -
  consider "m = 0" | "0 < m" "m < 2 ^ 53" | "m = 2 ^ 53" using m by linarith
  then show ?thesis
  proof cases
    case 1 then show ?thesis by (simp add: fl_zero)
  next
    case 2 then show ?thesis using k by (rule fl_repr_lt)
  next
    case 3
    have "fl (of_int (2 ^ 52) * 2 powi (k + 1)) = of_int (2 ^ 52) * 2 powi (k + 1)"
      using k by (intro fl_repr_lt) simp_all
    moreover have "real_of_int (2 ^ 52) * 2 powi (k + 1) = of_int m * 2 powi k"
      by (simp add: 3 powi_add)
    ultimately show ?thesis by simp
  qed
qed

lemma fl_int: "0 \<le> n \<Longrightarrow> n \<le> 2 ^ 53 \<Longrightarrow> fl (of_int n) = of_int n"
  using fl_repr[of n 0] by simp

text \<open>In the normal range the relative error of one rounding is at most \<open>2 powi - 53\<close>.\<close>

lemma fl_err:
  assumes "2 powi (- 1022) \<le> x"
  shows "\<bar>fl x - x\<bar> \<le> x / 2 ^ 53"
proof -
  have x: "0 < x" using assms powi_pos[of "- 1022"] by linarith
  have "- 1022 \<le> expo x" using assms by (rule expo_ge)
  then have q: "qexp x = expo x - 52" by (simp add: qexp_def)
  let ?q = "(2::real) powi (qexp x)"
  have "\<bar>real_of_int (rne (x / ?q)) - x / ?q\<bar> \<le> 1 / 2"
    using rne_lower[of "x / ?q"] rne_upper[of "x / ?q"] by linarith
  then have "\<bar>real_of_int (rne (x / ?q)) - x / ?q\<bar> * ?q \<le> 1 / 2 * ?q"
    by (intro mult_right_mono) simp_all
  moreover have "\<bar>real_of_int (rne (x / ?q)) - x / ?q\<bar> * ?q = \<bar>fl x - x\<bar>"
  proof -
    have "\<bar>real_of_int (rne (x / ?q)) - x / ?q\<bar> * ?q
        = \<bar>(real_of_int (rne (x / ?q)) - x / ?q) * ?q\<bar>"
      by (simp add: abs_mult)
    also have "(real_of_int (rne (x / ?q)) - x / ?q) * ?q = fl x - x"
      using x by (simp add: fl_pos left_diff_distrib)
    finally show ?thesis .
  qed
  ultimately have "\<bar>fl x - x\<bar> \<le> ?q / 2" by simp
  also have "?q / 2 = 2 powi (expo x) / 2 ^ 53" by (simp add: q powi_diff)
  also have "\<dots> \<le> x / 2 ^ 53" using expo_bounds(1)[OF x] by (simp add: divide_right_mono)
  finally show ?thesis .
qed

text \<open>The equations that evaluate a rounding at a numeral.\<close>

lemmas fl_eval = fl_def quantum_def qexp_def expo_def bitlen_def compute_floorlog rne_def Let_def

text \<open>
  Known values: the Numbers written \<^verbatim>\<open>0.1\<close> and \<^verbatim>\<open>0.85\<close>, and the sum
  \<^verbatim>\<open>0.1 + 0.2\<close>, which is not the Number written \<^verbatim>\<open>0.3\<close>.
\<close>

lemma fl_known_values:
  "fl (1 / 10) = 3602879701896397 / 2 ^ 55"
  "fl (85 / 100) = 7656119366529843 / 2 ^ 53"
  "num_add (fl (1 / 10)) (fl (2 / 10)) = 1351079888211149 / 2 ^ 52"
  "fl (3 / 10) = 5404319552844595 / 2 ^ 54"
  by (simp_all add: num_add_def fl_eval)


section \<open>Cluster labels\<close>

lemma fold_visit_none:
  "(\<forall>c\<in>set cs. idx \<notin> set c) \<Longrightarrow> fold (visit idx) (enumerate n cs) acc = acc"
  by (induction cs arbitrary: n acc) (simp_all add: visit_def)

lemma fold_visit_last:
  "k < length cs \<Longrightarrow> idx \<in> set (cs ! k) \<Longrightarrow>
   (\<forall>j. k < j \<and> j < length cs \<longrightarrow> idx \<notin> set (cs ! j)) \<Longrightarrow>
   fold (visit idx) (enumerate n cs) acc = int (n + k)"
proof (induction cs arbitrary: n k acc)
  case Nil
  then show ?case by simp
next
  case (Cons c cs)
  show ?case
  proof (cases k)
    case 0
    have "\<forall>c'\<in>set cs. idx \<notin> set c'"
    proof
      fix c' assume "c' \<in> set cs"
      then obtain j where "j < length cs" "cs ! j = c'" by (auto simp: in_set_conv_nth)
      then show "idx \<notin> set c'" using Cons.prems(3)[rule_format, of "Suc j"] 0 by auto
    qed
    then show ?thesis using Cons.prems 0 by (simp add: fold_visit_none) (simp add: visit_def)
  next
    case (Suc k')
    have "fold (visit idx) (enumerate (Suc n) cs) (visit idx (n, c) acc) = int (Suc n + k')"
    proof (rule Cons.IH)
      show "k' < length cs" using Cons.prems Suc by simp
      show "idx \<in> set (cs ! k')" using Cons.prems Suc by simp
      show "\<forall>j. k' < j \<and> j < length cs \<longrightarrow> idx \<notin> set (cs ! j)"
        using Cons.prems(3) Suc by (metis Suc_less_eq length_Cons nth_Cons_Suc)
    qed
    then show ?thesis using Suc by simp
  qed
qed

lemma fold_visit_noise:
  "- 1 \<le> acc \<Longrightarrow> - 1 \<le> fold (visit idx) (enumerate n cs) acc \<and>
    (fold (visit idx) (enumerate n cs) acc = - 1 \<longleftrightarrow> acc = - 1 \<and> (\<forall>c\<in>set cs. idx \<notin> set c))"
proof (induction cs arbitrary: n acc)
  case Nil
  then show ?case by simp
next
  case (Cons c cs)
  have "- 1 \<le> visit idx (n, c) acc" using Cons.prems by (simp add: visit_def)
  from Cons.IH[OF this, of "Suc n"] show ?case by (auto simp: visit_def)
qed

lemma clusterIdOf_noise:
  "- 1 \<le> clusterIdOf clusters idx"
  "clusterIdOf clusters idx = - 1 \<longleftrightarrow> (\<forall>c\<in>set clusters. idx \<notin> set c)"
  using fold_visit_noise[of "- 1" idx 0 clusters] by (simp_all add: clusterIdOf_def)

lemma clusterIdOf_last:
  "k < length clusters \<Longrightarrow> idx \<in> set (clusters ! k) \<Longrightarrow>
   (\<forall>j. k < j \<and> j < length clusters \<longrightarrow> idx \<notin> set (clusters ! j)) \<Longrightarrow>
   clusterIdOf clusters idx = int k"
  using fold_visit_last[of k clusters idx 0 "- 1"] by (simp add: clusterIdOf_def)

lemma applyDBSCAN_length: "length (applyDBSCAN run clk zoneData) = length zoneData"
  by (simp add: applyDBSCAN_def Let_def)

lemma applyDBSCAN_nth:
  "idx < length zoneData \<Longrightarrow>
   applyDBSCAN run clk zoneData ! idx =
     classify (run (map coordinates zoneData) 30 2) clk (idx, zoneData ! idx)"
  by (simp add: applyDBSCAN_def Let_def nth_enumerate_eq)

lemma classify_fields:
  "zoneId (classify cs clk (idx, z)) = zoneId z"
  "zoneName (classify cs clk (idx, z)) = zoneName z"
  "population (classify cs clk (idx, z)) = population z"
  "capacity (classify cs clk (idx, z)) = capacity z"
  "density (classify cs clk (idx, z)) = densityOf (population z) (capacity z)"
  "status (classify cs clk (idx, z)) = statusOf (population z) (capacity z)"
  "cluster (classify cs clk (idx, z)) =
     (if clusterIdOf cs idx = - 1 then 0 else clusterIdOf cs idx + 1)"
  "timestamp (classify cs clk (idx, z)) = clk idx"
  by (simp_all add: classify_def Let_def)

text \<open>
  C5. In the output of \<^verbatim>\<open>applyDBSCAN\<close> the \<^verbatim>\<open>cluster\<close> field of the reading of zone
  number \<open>idx\<close> is a non-negative integer. It is \<open>0\<close> exactly when no cluster returned by
  the clustering library contains \<open>idx\<close>, which is how the code reads noise off the
  library's result; and when \<open>idx\<close> lies in the cluster with (0-based) index \<open>k\<close> and in
  no other, the field is \<open>k + 1\<close>.
\<close>

theorem cluster_label_one_based:
  assumes "idx < length zoneData"
  shows "let clusters = run (map coordinates zoneData) 30 2;
             r = applyDBSCAN run clk zoneData ! idx
         in 0 \<le> cluster r
          \<and> (cluster r = 0 \<longleftrightarrow> (\<forall>c\<in>set clusters. idx \<notin> set c))
          \<and> (\<forall>k<length clusters.
                idx \<in> set (clusters ! k) \<and> (\<forall>j<length clusters. j \<noteq> k \<longrightarrow> idx \<notin> set (clusters ! j))
                \<longrightarrow> cluster r = int k + 1)"
proof -
  define clusters where "clusters = run (map coordinates zoneData) 30 2"
  define r where "r = applyDBSCAN run clk zoneData ! idx"
  have c: "cluster r = (if clusterIdOf clusters idx = - 1 then 0 else clusterIdOf clusters idx + 1)"
    using assms by (simp add: r_def clusters_def applyDBSCAN_nth classify_fields)
  have 1: "0 \<le> cluster r" using clusterIdOf_noise(1)[of clusters idx] by (simp add: c)
  have 2: "cluster r = 0 \<longleftrightarrow> (\<forall>c\<in>set clusters. idx \<notin> set c)"
    using clusterIdOf_noise[of clusters idx] by (cases "clusterIdOf clusters idx = - 1") (auto simp: c)
  have 3: "cluster r = int k + 1"
    if "k < length clusters" "idx \<in> set (clusters ! k)"
       "\<forall>j<length clusters. j \<noteq> k \<longrightarrow> idx \<notin> set (clusters ! j)" for k
  proof -
    have "clusterIdOf clusters idx = int k" using that by (intro clusterIdOf_last) auto
    then show ?thesis by (simp add: c)
  qed
  show ?thesis
    unfolding Let_def clusters_def[symmetric] r_def[symmetric] using 1 2 3 by blast
qed

theorem cluster_label_one_based_witness:
  "cluster (applyDBSCAN (\<lambda>cs eps m. [ [0, 2], [1, 3] ]) (\<lambda>i. 0)
      (map (\<lambda>n. \<lparr>zoneId = ''Z'', zoneName = ''Z'', population = n, capacity = 10,
                  coordinates = (0, 0)\<rparr>) [1, 2, 3, 4, 5]) ! 3) = 2
   \<and> cluster (applyDBSCAN (\<lambda>cs eps m. [ [0, 2], [1, 3] ]) (\<lambda>i. 0)
      (map (\<lambda>n. \<lparr>zoneId = ''Z'', zoneName = ''Z'', population = n, capacity = 10,
                  coordinates = (0, 0)\<rparr>) [1, 2, 3, 4, 5]) ! 4) = 0"
  using cluster_label_one_based [of 3 "map (\<lambda>n. \<lparr>zoneId = ''Z'', zoneName = ''Z'', population = n,
          capacity = 10, coordinates = (0, 0)\<rparr>) [1, 2, 3, 4, 5]" "\<lambda>cs eps m. [ [0, 2], [1, 3] ]" "\<lambda>i. 0"]
        cluster_label_one_based [of 4 "map (\<lambda>n. \<lparr>zoneId = ''Z'', zoneName = ''Z'', population = n,
          capacity = 10, coordinates = (0, 0)\<rparr>) [1, 2, 3, 4, 5]" "\<lambda>cs eps m. [ [0, 2], [1, 3] ]" "\<lambda>i. 0"]
  by (simp add: Let_def All_less_Suc numeral_2_eq_2)


section \<open>The tick and the refresh on demand\<close>

lemma saveZoneData_frame:
  "clients (saveZoneData flt zd s) = clients s"
  "outbox (saveZoneData flt zd s) = outbox s"
  by (simp_all add: saveZoneData_def insertMany_def split: option.splits)

lemma saveZoneData_store:
  "store (saveZoneData flt zd s) =
     (case flt of None \<Rightarrow> store s @ zd | Some k \<Rightarrow> store s @ take k zd)"
  by (simp add: saveZoneData_def insertMany_def split: option.splits)

lemma saveZoneData_console:
  "console (saveZoneData flt zd s) =
     console s @ [if flt = None then ''Zone data saved to MongoDB'' else ''Error saving zone data'']"
  by (simp add: saveZoneData_def insertMany_def split: option.splits)

lemma tick_clients: "clients (tick e s) = clients s"
  by (simp add: tick_def Let_def console_log_def io_emit_def saveZoneData_frame)

lemma tick_outbox: "outbox (tick e s) = outbox s @ map (\<lambda>c. (c, snapshot e)) (clients s)"
  by (simp add: tick_def Let_def console_log_def io_emit_def saveZoneData_frame snapshot_def)

lemma tick_store:
  "store (tick e s) =
     (case fault e of None \<Rightarrow> store s @ snapshot e | Some k \<Rightarrow> store s @ take k (snapshot e))"
  by (simp add: tick_def Let_def console_log_def io_emit_def saveZoneData_store snapshot_def
      split: option.splits)

lemma tick_console:
  "console (tick e s) = console s @ [''Generating new crowd data...'',
      if fault e = None then ''Zone data saved to MongoDB'' else ''Error saving zone data'',
      ''Data broadcasted to clients'']"
  by (simp add: tick_def Let_def console_log_def io_emit_def saveZoneData_console)

lemma run_clients: "clients (fold tick envs s) = clients s"
  by (induction envs arbitrary: s) (simp_all add: tick_clients)

lemma run_outbox:
  "outbox (fold tick envs s) =
     outbox s @ concat (map (\<lambda>e. map (\<lambda>c. (c, snapshot e)) (clients s)) envs)"
  by (induction envs arbitrary: s) (simp_all add: tick_outbox tick_clients)

text \<open>
  C7. Whether \<^verbatim>\<open>insertMany\<close> resolves or rejects, a tick delivers its computed snapshot
  to every connected socket. When it rejects, the console receives the error line and
  the tick still ends with its broadcast. The driver runs every later tick: after the
  tick \<open>e\<close> and the ticks \<open>envs\<close>, each of them has broadcast its own snapshot,
  whatever the fate of any append.
\<close>

theorem tick_survives_store_failure:
  "outbox (tick e s) = outbox s @ map (\<lambda>c. (c, snapshot e)) (clients s)
   \<and> (fault e \<noteq> None \<longrightarrow>
        console (tick e s) = console s @ [''Generating new crowd data...'',
          ''Error saving zone data'', ''Data broadcasted to clients''])
   \<and> outbox (startRealTimeUpdates (e # envs) s) =
       outbox s @ concat (map (\<lambda>e. map (\<lambda>c. (c, snapshot e)) (clients s)) (e # envs))"
  by (simp add: tick_outbox tick_console run_outbox startRealTimeUpdates_def tick_clients)

theorem tick_survives_store_failure_witness:
  "fault \<lparr>random = \<lambda>k. 1 / 2, dbscan = \<lambda>cs eps m. [], now = \<lambda>i. 0, fault = Some 0\<rparr> \<noteq> None
   \<and> outbox (tick \<lparr>random = \<lambda>k. 1 / 2, dbscan = \<lambda>cs eps m. [], now = \<lambda>i. 0, fault = Some 0\<rparr>
          \<lparr>store = [], clients = [7, 8], outbox = [], console = []\<rparr>)
      = [(7, snapshot \<lparr>random = \<lambda>k. 1 / 2, dbscan = \<lambda>cs eps m. [], now = \<lambda>i. 0, fault = Some 0\<rparr>),
         (8, snapshot \<lparr>random = \<lambda>k. 1 / 2, dbscan = \<lambda>cs eps m. [], now = \<lambda>i. 0, fault = Some 0\<rparr>)]
   \<and> console (tick \<lparr>random = \<lambda>k. 1 / 2, dbscan = \<lambda>cs eps m. [], now = \<lambda>i. 0, fault = Some 0\<rparr>
          \<lparr>store = [], clients = [7, 8], outbox = [], console = []\<rparr>)
      = [''Generating new crowd data...'', ''Error saving zone data'', ''Data broadcasted to clients'']
   \<and> map fst (outbox (startRealTimeUpdates [\<lparr>random = \<lambda>k. 1 / 2, dbscan = \<lambda>cs eps m. [], now = \<lambda>i. 0, fault = Some 0\<rparr>,
          \<lparr>random = \<lambda>k. 1 / 2, dbscan = \<lambda>cs eps m. [], now = \<lambda>i. 0, fault = None\<rparr>]
          \<lparr>store = [], clients = [7, 8], outbox = [], console = []\<rparr>)) = [7, 8, 7, 8]"
  using tick_survives_store_failure [of
      "\<lparr>random = \<lambda>k. 1 / 2, dbscan = \<lambda>cs eps m. [], now = \<lambda>i. 0, fault = Some 0\<rparr>"
      "\<lparr>store = [], clients = [7, 8], outbox = [], console = []\<rparr>"
      "[\<lparr>random = \<lambda>k. 1 / 2, dbscan = \<lambda>cs eps m. [], now = \<lambda>i. 0, fault = None\<rparr>]"]
  by (simp add: tick_def Let_def console_log_def io_emit_def saveZoneData_def insertMany_def)

text \<open>
  C6. The handler of \<^verbatim>\<open>requestUpdate\<close> computes a fresh snapshot and emits it on the
  requesting socket only: the store and the set of clients are unchanged, the one new
  event is addressed to the requester, and the events of every other socket are what they
  were.
\<close>

theorem refresh_on_demand_frame:
  "store (requestUpdate sid e s) = store s
   \<and> clients (requestUpdate sid e s) = clients s
   \<and> outbox (requestUpdate sid e s) = outbox s @ [(sid, snapshot e)]
   \<and> (\<forall>other. other \<noteq> sid \<longrightarrow>
        filter (\<lambda>m. fst m = other) (outbox (requestUpdate sid e s))
          = filter (\<lambda>m. fst m = other) (outbox s))"
  by (simp add: requestUpdate_def Let_def socket_emit_def snapshot_def)

theorem refresh_on_demand_frame_witness:
  "(8::nat) \<noteq> 7
   \<and> filter (\<lambda>m. fst m = 8)
       (outbox (requestUpdate 7 \<lparr>random = \<lambda>k. 1 / 2, dbscan = \<lambda>cs eps m. [], now = \<lambda>i. 0, fault = None\<rparr>
          \<lparr>store = [], clients = [7, 8], outbox = [(8, [])], console = []\<rparr>)) = [(8, [])]
   \<and> store (requestUpdate 7 \<lparr>random = \<lambda>k. 1 / 2, dbscan = \<lambda>cs eps m. [], now = \<lambda>i. 0, fault = None\<rparr>
          \<lparr>store = [], clients = [7, 8], outbox = [(8, [])], console = []\<rparr>) = []"
  using refresh_on_demand_frame [of 7 "\<lparr>random = \<lambda>k. 1 / 2, dbscan = \<lambda>cs eps m. [], now = \<lambda>i. 0, fault = None\<rparr>"
          "\<lparr>store = [], clients = [7, 8], outbox = [(8, [])], console = []\<rparr>"]
  by simp

section \<open>Latest reading per zone\<close>

lemma set_sortDesc: "set (sortDesc docs) = set docs"
  by (simp add: sortDesc_def)

lemma sorted_sortDesc: "sorted (map (\<lambda>d. - timestamp d) (sortDesc docs))"
  by (simp add: sortDesc_def)

lemma groupFirst_subset: "set (groupFirst xs) \<subseteq> set xs"
  by (induction xs rule: groupFirst.induct) auto

lemma groupFirst_ids: "zoneId ` set (groupFirst xs) = zoneId ` set xs"
  by (induction xs rule: groupFirst.induct) auto

lemma groupFirst_distinct: "distinct (map zoneId (groupFirst xs))"
proof (induction xs rule: groupFirst.induct)
  case 1
  then show ?case by simp
next
  case (2 d ds)
  have "zoneId d \<notin> zoneId ` set (groupFirst (filter (\<lambda>r. zoneId r \<noteq> zoneId d) ds))"
    using groupFirst_subset[of "filter (\<lambda>r. zoneId r \<noteq> zoneId d) ds"] by auto
  then show ?case using 2 by simp
qed

lemma groupFirst_latest:
  "sorted (map (\<lambda>d. - timestamp d) xs) \<Longrightarrow> e \<in> set (groupFirst xs) \<Longrightarrow>
   d' \<in> set xs \<Longrightarrow> zoneId d' = zoneId e \<Longrightarrow> timestamp d' \<le> timestamp e"
proof (induction xs arbitrary: e d' rule: groupFirst.induct)
  case 1
  then show ?case by simp
next
  case (2 d ds)
  let ?f = "filter (\<lambda>r. zoneId r \<noteq> zoneId d) ds"
  show ?case
  proof (cases "e = d")
    case True
    then show ?thesis using "2.prems" by auto
  next
    case False
    then have e: "e \<in> set (groupFirst ?f)" using "2.prems"(2) by simp
    then have "e \<in> set ?f" using groupFirst_subset by blast
    then have ne: "zoneId e \<noteq> zoneId d" by simp
    then have "d' \<in> set ?f" using "2.prems"(3,4) by auto
    moreover have "sorted (map (\<lambda>d. - timestamp d) ?f)"
      using "2.prems"(1) by (simp add: sorted_filter)
    ultimately show ?thesis using "2.IH" e "2.prems"(4) by blast
  qed
qed

lemma timeOrdered_last:
  assumes "timeOrdered docs" "d \<in> set docs"
    and "\<forall>d'\<in>set docs. zoneId d' = zoneId d \<longrightarrow> timestamp d' \<le> timestamp d"
  shows "d = lastAppended docs (zoneId d)"
proof -
  let ?P = "\<lambda>r. zoneId r = zoneId d"
  let ?f = "filter ?P docs"
  have ne: "?f \<noteq> []" using assms(2) by (auto simp: filter_empty_conv)
  then obtain ys l where f: "?f = ys @ [l]" by (metis rev_exhaust)
  have l: "lastAppended docs (zoneId d) = l" by (simp add: lastAppended_def f)
  have srt: "sorted_wrt (\<lambda>a b. zoneId a = zoneId b \<longrightarrow> timestamp a < timestamp b) ?f"
    using assms(1) unfolding timeOrdered_def by (rule sorted_wrt_filter)
  have lin: "l \<in> set ?f" by (simp add: f)
  then have lz: "zoneId l = zoneId d" "l \<in> set docs" by auto
  have "d \<in> set ?f" using assms(2) by simp
  then have "d \<in> set ys \<or> d = l" by (auto simp: f)
  moreover have "d \<notin> set ys"
  proof
    assume "d \<in> set ys"
    then have "timestamp d < timestamp l" using srt lz by (auto simp: f sorted_wrt_append)
    moreover have "timestamp l \<le> timestamp d" using assms(3) lz by blast
    ultimately show False by simp
  qed
  ultimately show ?thesis using l by simp
qed

lemma getLatestData_ids:
  "map row_id (getLatestData docs) = map zoneId (groupFirst (sortDesc docs))"
  by (simp add: getLatestData_def toRow_def comp_def)

text \<open>
  C3, as the code has it. The latest-per-zone query returns one row per distinct
  \<^verbatim>\<open>zoneId\<close> of the stored documents. Each row carries, with the zone under the key
  \<^verbatim>\<open>_id\<close>, the fields of a stored reading of that zone whose timestamp is the greatest
  of the zone: the pipeline sorts by \<^verbatim>\<open>timestamp\<close>, not by insertion. That reading is
  the most recently appended one of its zone when the timestamps of every zone grow
  strictly along the insertion order.
\<close>

theorem latest_per_zone_by_timestamp:
  "distinct (map row_id (getLatestData docs))
   \<and> row_id ` set (getLatestData docs) = zoneId ` set docs
   \<and> (\<forall>row\<in>set (getLatestData docs). \<exists>d\<in>set docs. row = toRow d
        \<and> (\<forall>d'\<in>set docs. zoneId d' = zoneId d \<longrightarrow> timestamp d' \<le> timestamp d)
        \<and> (timeOrdered docs \<longrightarrow> d = lastAppended docs (zoneId d)))"
proof (intro conjI ballI)
  show "distinct (map row_id (getLatestData docs))"
    by (simp add: getLatestData_ids groupFirst_distinct)
  have "row_id ` set (getLatestData docs) = set (map row_id (getLatestData docs))" by simp
  also have "\<dots> = zoneId ` set (groupFirst (sortDesc docs))" by (simp add: getLatestData_ids)
  also have "\<dots> = zoneId ` set docs" by (simp add: groupFirst_ids set_sortDesc)
  finally show "row_id ` set (getLatestData docs) = zoneId ` set docs" .
next
  fix row assume "row \<in> set (getLatestData docs)"
  then obtain d where d: "d \<in> set (groupFirst (sortDesc docs))" "row = toRow d"
    by (auto simp: getLatestData_def)
  have din: "d \<in> set docs" using d(1) groupFirst_subset set_sortDesc by blast
  have mx: "\<forall>d'\<in>set docs. zoneId d' = zoneId d \<longrightarrow> timestamp d' \<le> timestamp d"
    using groupFirst_latest[OF sorted_sortDesc d(1)] by (simp add: set_sortDesc)
  have "timeOrdered docs \<longrightarrow> d = lastAppended docs (zoneId d)"
    using timeOrdered_last[OF _ din mx] by blast
  then show "\<exists>d\<in>set docs. row = toRow d
        \<and> (\<forall>d'\<in>set docs. zoneId d' = zoneId d \<longrightarrow> timestamp d' \<le> timestamp d)
        \<and> (timeOrdered docs \<longrightarrow> d = lastAppended docs (zoneId d))"
    using d(2) din mx by blast
qed

theorem latest_per_zone_by_timestamp_witness:
  "timeOrdered
     [\<lparr>zoneId = ''AB1'', zoneName = ''AB1'', population = 3000, capacity = 5880,
        density = 61, cluster = 0, status = Normal, timestamp = 1000\<rparr>,
      \<lparr>zoneId = ''AB2'', zoneName = ''AB2'', population = 100, capacity = 250,
        density = 48, cluster = 0, status = Normal, timestamp = 1000\<rparr>,
      \<lparr>zoneId = ''AB1'', zoneName = ''AB1'', population = 4000, capacity = 5880,
        density = 81, cluster = 0, status = Moderate, timestamp = 6000\<rparr>]
   \<and> row_id ` set (getLatestData
     [\<lparr>zoneId = ''AB1'', zoneName = ''AB1'', population = 3000, capacity = 5880,
        density = 61, cluster = 0, status = Normal, timestamp = 1000\<rparr>,
      \<lparr>zoneId = ''AB2'', zoneName = ''AB2'', population = 100, capacity = 250,
        density = 48, cluster = 0, status = Normal, timestamp = 1000\<rparr>,
      \<lparr>zoneId = ''AB1'', zoneName = ''AB1'', population = 4000, capacity = 5880,
        density = 81, cluster = 0, status = Moderate, timestamp = 6000\<rparr>]) = {''AB1'', ''AB2''}
   \<and> map row_population (getLatestData
     [\<lparr>zoneId = ''AB1'', zoneName = ''AB1'', population = 3000, capacity = 5880,
        density = 61, cluster = 0, status = Normal, timestamp = 1000\<rparr>,
      \<lparr>zoneId = ''AB2'', zoneName = ''AB2'', population = 100, capacity = 250,
        density = 48, cluster = 0, status = Normal, timestamp = 1000\<rparr>,
      \<lparr>zoneId = ''AB1'', zoneName = ''AB1'', population = 4000, capacity = 5880,
        density = 81, cluster = 0, status = Moderate, timestamp = 6000\<rparr>]) = [4000, 100]"
  using latest_per_zone_by_timestamp [of
     "[\<lparr>zoneId = ''AB1'', zoneName = ''AB1'', population = 3000, capacity = 5880,
        density = 61, cluster = 0, status = Normal, timestamp = 1000\<rparr>,
      \<lparr>zoneId = ''AB2'', zoneName = ''AB2'', population = 100, capacity = 250,
        density = 48, cluster = 0, status = Normal, timestamp = 1000\<rparr>,
      \<lparr>zoneId = ''AB1'', zoneName = ''AB1'', population = 4000, capacity = 5880,
        density = 81, cluster = 0, status = Moderate, timestamp = 6000\<rparr>]"]
  by (simp add: timeOrdered_def getLatestData_def sortDesc_def toRow_def)

text \<open>
  C3, as the claim states it, fails. Two readings of zone AB1 are appended, the first
  stamped 2000 and the second 1000. The query returns the first, the reading with the
  greater timestamp; the most recently appended reading is the second, with another
  population.
\<close>

theorem latest_is_not_last_appended:
  "getLatestData
     [\<lparr>zoneId = ''AB1'', zoneName = ''AB1'', population = 3000, capacity = 5880,
        density = 61, cluster = 0, status = Normal, timestamp = 2000\<rparr>,
      \<lparr>zoneId = ''AB1'', zoneName = ''AB1'', population = 4000, capacity = 5880,
        density = 81, cluster = 0, status = Moderate, timestamp = 1000\<rparr>]
   = [toRow \<lparr>zoneId = ''AB1'', zoneName = ''AB1'', population = 3000, capacity = 5880,
        density = 61, cluster = 0, status = Normal, timestamp = 2000\<rparr>]
   \<and> lastAppended
     [\<lparr>zoneId = ''AB1'', zoneName = ''AB1'', population = 3000, capacity = 5880,
        density = 61, cluster = 0, status = Normal, timestamp = 2000\<rparr>,
      \<lparr>zoneId = ''AB1'', zoneName = ''AB1'', population = 4000, capacity = 5880,
        density = 81, cluster = 0, status = Moderate, timestamp = 1000\<rparr>] ''AB1''
   = \<lparr>zoneId = ''AB1'', zoneName = ''AB1'', population = 4000, capacity = 5880,
        density = 81, cluster = 0, status = Moderate, timestamp = 1000\<rparr>
   \<and> toRow \<lparr>zoneId = ''AB1'', zoneName = ''AB1'', population = 3000, capacity = 5880,
        density = 61, cluster = 0, status = Normal, timestamp = 2000\<rparr>
     \<noteq> toRow \<lparr>zoneId = ''AB1'', zoneName = ''AB1'', population = 4000, capacity = 5880,
        density = 81, cluster = 0, status = Moderate, timestamp = 1000\<rparr>"
  by (simp add: getLatestData_def sortDesc_def lastAppended_def toRow_def)

section \<open>History of a zone\<close>

lemma getZoneHistory_mset:
  "mset (getZoneHistory docs clock zid minutes) =
     mset (filter (\<lambda>d. zoneId d = zid \<and> clock - minutes * 60 * 1000 \<le> timestamp d) docs)"
  by (simp add: getZoneHistory_def Let_def)

lemma getZoneHistory_sorted: "sorted (map timestamp (getZoneHistory docs clock zid minutes))"
  by (simp add: getZoneHistory_def Let_def)

lemma getZoneHistory_unknown:
  "zid \<notin> zoneId ` set docs \<Longrightarrow> getZoneHistory docs clock zid minutes = []"
proof -
  assume "zid \<notin> zoneId ` set docs"
  then have "filter (\<lambda>d. zoneId d = zid \<and> clock - minutes * 60 * 1000 \<le> timestamp d) docs = []"
    by (auto simp: filter_empty_conv)
  then show ?thesis by (simp add: getZoneHistory_def Let_def)
qed

lemma get_history_eq:
  "get_history None clock zid s =
     HistoryOk zid (getZoneHistory (store s) clock zid 15)
       (length (getZoneHistory (store s) clock zid 15))"
  by (simp add: get_history_def getZoneHistory_def Let_def)

text \<open>
  C4. When the database call returns, the history route answers with a success response
  holding \<^verbatim>\<open>getZoneHistory\<close> for the default window of 15 minutes. For every window,
  \<^verbatim>\<open>getZoneHistory\<close> holds exactly the stored readings of the zone whose timestamp is at
  least the clock minus the window, each as often as it is stored, in ascending order of
  timestamp. For a zone that was never appended the sequence is empty and the response
  is the success response with no data and count 0.
\<close>

theorem history_window:
  "get_history None clock zid s =
     HistoryOk zid (getZoneHistory (store s) clock zid 15)
       (length (getZoneHistory (store s) clock zid 15))
   \<and> mset (getZoneHistory docs clock zid minutes) =
       mset (filter (\<lambda>d. zoneId d = zid \<and> clock - minutes * 60 * 1000 \<le> timestamp d) docs)
   \<and> sorted (map timestamp (getZoneHistory docs clock zid minutes))
   \<and> (zid \<notin> zoneId ` set docs \<longrightarrow> getZoneHistory docs clock zid minutes = [])
   \<and> (zid \<notin> zoneId ` set (store s) \<longrightarrow> get_history None clock zid s = HistoryOk zid [] 0)"
  using getZoneHistory_unknown[of zid "store s" clock 15]
    getZoneHistory_unknown[of zid docs clock minutes]
  by (simp add: get_history_eq getZoneHistory_mset getZoneHistory_sorted)

theorem history_window_witness:
  "''MBA'' \<notin> zoneId ` set [\<lparr>zoneId = ''AB1'', zoneName = ''AB1'', population = 3000, capacity = 5880,
        density = 61, cluster = 0, status = Normal, timestamp = 1000\<rparr>,
      \<lparr>zoneId = ''AB2'', zoneName = ''AB2'', population = 100, capacity = 250,
        density = 48, cluster = 0, status = Normal, timestamp = 1000\<rparr>,
      \<lparr>zoneId = ''AB1'', zoneName = ''AB1'', population = 4000, capacity = 5880,
        density = 81, cluster = 0, status = Moderate, timestamp = 6000\<rparr>]
   \<and> get_history None 1000000 ''MBA''
       \<lparr>store = [\<lparr>zoneId = ''AB1'', zoneName = ''AB1'', population = 3000, capacity = 5880,
        density = 61, cluster = 0, status = Normal, timestamp = 1000\<rparr>,
      \<lparr>zoneId = ''AB2'', zoneName = ''AB2'', population = 100, capacity = 250,
        density = 48, cluster = 0, status = Normal, timestamp = 1000\<rparr>,
      \<lparr>zoneId = ''AB1'', zoneName = ''AB1'', population = 4000, capacity = 5880,
        density = 81, cluster = 0, status = Moderate, timestamp = 6000\<rparr>], clients = [], outbox = [], console = []\<rparr> = HistoryOk ''MBA'' [] 0
   \<and> map timestamp (getZoneHistory
       [\<lparr>zoneId = ''AB1'', zoneName = ''AB1'', population = 4000, capacity = 5880,
        density = 81, cluster = 0, status = Moderate, timestamp = 6000\<rparr>,
        \<lparr>zoneId = ''AB2'', zoneName = ''AB2'', population = 100, capacity = 250,
        density = 48, cluster = 0, status = Normal, timestamp = 1000\<rparr>,
        \<lparr>zoneId = ''AB1'', zoneName = ''AB1'', population = 3000, capacity = 5880,
        density = 61, cluster = 0, status = Normal, timestamp = 1000\<rparr>] 901000 ''AB1'' 15) = [1000, 6000]
   \<and> map timestamp (getZoneHistory
       [\<lparr>zoneId = ''AB1'', zoneName = ''AB1'', population = 4000, capacity = 5880,
        density = 81, cluster = 0, status = Moderate, timestamp = 6000\<rparr>,
        \<lparr>zoneId = ''AB2'', zoneName = ''AB2'', population = 100, capacity = 250,
        density = 48, cluster = 0, status = Normal, timestamp = 1000\<rparr>,
        \<lparr>zoneId = ''AB1'', zoneName = ''AB1'', population = 3000, capacity = 5880,
        density = 61, cluster = 0, status = Normal, timestamp = 1000\<rparr>] 901001 ''AB1'' 15) = [6000]"
  using history_window [of 1000000 "''MBA''"
      "\<lparr>store = [\<lparr>zoneId = ''AB1'', zoneName = ''AB1'', population = 3000, capacity = 5880,
        density = 61, cluster = 0, status = Normal, timestamp = 1000\<rparr>,
      \<lparr>zoneId = ''AB2'', zoneName = ''AB2'', population = 100, capacity = 250,
        density = 48, cluster = 0, status = Normal, timestamp = 1000\<rparr>,
      \<lparr>zoneId = ''AB1'', zoneName = ''AB1'', population = 4000, capacity = 5880,
        density = 81, cluster = 0, status = Moderate, timestamp = 6000\<rparr>], clients = [], outbox = [], console = []\<rparr>"
      "[\<lparr>zoneId = ''AB1'', zoneName = ''AB1'', population = 3000, capacity = 5880,
        density = 61, cluster = 0, status = Normal, timestamp = 1000\<rparr>,
      \<lparr>zoneId = ''AB2'', zoneName = ''AB2'', population = 100, capacity = 250,
        density = 48, cluster = 0, status = Normal, timestamp = 1000\<rparr>,
      \<lparr>zoneId = ''AB1'', zoneName = ''AB1'', population = 4000, capacity = 5880,
        density = 81, cluster = 0, status = Moderate, timestamp = 6000\<rparr>]" 15]
  by (simp add: getZoneHistory_def)


section \<open>Status\<close>

lemma pct_mono:
  assumes "0 \<le> x" "x \<le> y" "0 \<le> k"
  shows "fl (fl x * k) \<le> fl (fl y * k)"
proof -
  have "fl x \<le> fl y" using assms(1,2) by (rule fl_mono)
  moreover have "0 \<le> fl x" using assms(1) by (rule fl_nonneg)
  ultimately have "0 \<le> fl x * k" "fl x * k \<le> fl y * k"
    using assms(3) by (simp_all add: mult_right_mono)
  then show ?thesis by (rule fl_mono)
qed

lemma pct_85: "fl (fl (17 / 20) * 100) = 85"
  by (simp add: fl_eval)

lemma pct_above_85: "85 < fl (fl (17 / 20 + 1 / (20 * 2 ^ 50)) * 100)"
  by (simp add: fl_eval)

lemma pct_60: "fl (fl (3 / 5) * 100) = 60"
  by (simp add: fl_eval)

lemma pct_above_60: "60 < fl (fl (3 / 5 + 1 / (5 * 2 ^ 50)) * 100)"
  by (simp add: fl_eval)

lemma percentage_gt_85:
  assumes "0 < c" "c \<le> 2 ^ 50" "17 * c < 20 * p"
  shows "85 < percentage p c"
proof -
  have c: "0 < real_of_int c" "real_of_int c \<le> 2 ^ 50"
    using assms(1,2) int_le_pow2[of c 50] by simp_all
  have "17 * c + 1 \<le> 20 * p" using assms(3) by simp
  then have "real_of_int (17 * c + 1) \<le> real_of_int (20 * p)" using of_int_le_iff by blast
  then have "17 * real_of_int c + 1 \<le> 20 * real_of_int p" by simp
  then have "(17 * real_of_int c + 1) / (20 * real_of_int c) \<le> (20 * real_of_int p) / (20 * real_of_int c)"
    using c(1) by (intro divide_right_mono) simp_all
  then have "(17 * real_of_int c + 1) / (20 * real_of_int c) \<le> real_of_int p / real_of_int c"
    by simp
  moreover have "(17 * real_of_int c + 1) / (20 * real_of_int c) = 17 / 20 + 1 / (20 * real_of_int c)"
    using c(1) by (simp add: field_simps)
  moreover have "1 / (20 * 2 ^ 50) \<le> 1 / (20 * real_of_int c)"
    using c by (simp add: field_simps)
  ultimately have x: "17 / 20 + 1 / (20 * 2 ^ 50) \<le> real_of_int p / real_of_int c" by linarith
  have "fl (fl (17 / 20 + 1 / (20 * 2 ^ 50)) * 100) \<le> fl (fl (real_of_int p / real_of_int c) * 100)"
    using x by (intro pct_mono) simp_all
  then show ?thesis using pct_above_85 by (simp add: percentage_def num_mul_def num_div_def)
qed

lemma percentage_le_85:
  assumes "0 < c" "0 \<le> p" "20 * p \<le> 17 * c"
  shows "percentage p c \<le> 85"
proof -
  have c: "0 < real_of_int c" using assms(1) by simp
  have "real_of_int (20 * p) \<le> real_of_int (17 * c)" using assms(3) of_int_le_iff by blast
  then have "real_of_int p / real_of_int c \<le> 17 / 20" using c by (simp add: field_simps)
  moreover have "0 \<le> real_of_int p / real_of_int c" using assms(1,2) by simp
  ultimately have "fl (fl (real_of_int p / real_of_int c) * 100) \<le> fl (fl (17 / 20) * 100)"
    by (intro pct_mono) simp_all
  then show ?thesis by (simp add: percentage_def num_mul_def num_div_def pct_85)
qed

lemma percentage_gt_60:
  assumes "0 < c" "c \<le> 2 ^ 50" "3 * c < 5 * p"
  shows "60 < percentage p c"
proof -
  have c: "0 < real_of_int c" "real_of_int c \<le> 2 ^ 50"
    using assms(1,2) int_le_pow2[of c 50] by simp_all
  have "3 * c + 1 \<le> 5 * p" using assms(3) by simp
  then have "real_of_int (3 * c + 1) \<le> real_of_int (5 * p)" using of_int_le_iff by blast
  then have "3 * real_of_int c + 1 \<le> 5 * real_of_int p" by simp
  then have "(3 * real_of_int c + 1) / (5 * real_of_int c) \<le> (5 * real_of_int p) / (5 * real_of_int c)"
    using c(1) by (intro divide_right_mono) simp_all
  then have "(3 * real_of_int c + 1) / (5 * real_of_int c) \<le> real_of_int p / real_of_int c"
    by simp
  moreover have "(3 * real_of_int c + 1) / (5 * real_of_int c) = 3 / 5 + 1 / (5 * real_of_int c)"
    using c(1) by (simp add: field_simps)
  moreover have "1 / (5 * 2 ^ 50) \<le> 1 / (5 * real_of_int c)"
    using c by (simp add: field_simps)
  ultimately have x: "3 / 5 + 1 / (5 * 2 ^ 50) \<le> real_of_int p / real_of_int c" by linarith
  have "fl (fl (3 / 5 + 1 / (5 * 2 ^ 50)) * 100) \<le> fl (fl (real_of_int p / real_of_int c) * 100)"
    using x by (intro pct_mono) simp_all
  then show ?thesis using pct_above_60 by (simp add: percentage_def num_mul_def num_div_def)
qed

lemma percentage_le_60:
  assumes "0 < c" "0 \<le> p" "5 * p \<le> 3 * c"
  shows "percentage p c \<le> 60"
proof -
  have c: "0 < real_of_int c" using assms(1) by simp
  have "real_of_int (5 * p) \<le> real_of_int (3 * c)" using assms(3) of_int_le_iff by blast
  then have "real_of_int p / real_of_int c \<le> 3 / 5" using c by (simp add: field_simps)
  moreover have "0 \<le> real_of_int p / real_of_int c" using assms(1,2) by simp
  ultimately have "fl (fl (real_of_int p / real_of_int c) * 100) \<le> fl (fl (3 / 5) * 100)"
    by (intro pct_mono) simp_all
  then show ?thesis by (simp add: percentage_def num_mul_def num_div_def pct_60)
qed

text \<open>
  C1, as the code has it. For every capacity \<open>0 < c \<le> 2 ^ 50\<close> and population
  \<open>p \<ge> 0\<close> the status is \<^verbatim>\<open>overcrowded\<close> iff \<open>p / c > 0.85\<close>, \<^verbatim>\<open>moderate\<close> iff
  \<open>0.60 < p / c \<le> 0.85\<close> and \<^verbatim>\<open>normal\<close> otherwise, the quotient taken exactly; a
  quotient of exactly \<open>0.85\<close> gives \<^verbatim>\<open>moderate\<close> and one of exactly \<open>0.60\<close> gives
  \<^verbatim>\<open>normal\<close>. The bound on the capacity keeps the two roundings of the percentage
  from reaching the thresholds.
\<close>

theorem status_tiers:
  assumes "0 < c" "c \<le> 2 ^ 50" "0 \<le> p"
  shows "(statusOf p c = Overcrowded \<longleftrightarrow> 85 / 100 < real_of_int p / real_of_int c)
       \<and> (statusOf p c = Moderate \<longleftrightarrow> 60 / 100 < real_of_int p / real_of_int c
             \<and> real_of_int p / real_of_int c \<le> 85 / 100)
       \<and> (statusOf p c = Normal \<longleftrightarrow> real_of_int p / real_of_int c \<le> 60 / 100)"
proof -
  have c: "0 < real_of_int c" using assms(1) by simp
  have r85: "85 / 100 < real_of_int p / real_of_int c \<longleftrightarrow> 17 * c < 20 * p"
  proof -
    have "85 / 100 < real_of_int p / real_of_int c \<longleftrightarrow> real_of_int (17 * c) < real_of_int (20 * p)"
      using c by (simp add: field_simps)
    also have "\<dots> \<longleftrightarrow> 17 * c < 20 * p" by (rule of_int_less_iff)
    finally show ?thesis .
  qed
  have r60: "60 / 100 < real_of_int p / real_of_int c \<longleftrightarrow> 3 * c < 5 * p"
  proof -
    have "60 / 100 < real_of_int p / real_of_int c \<longleftrightarrow> real_of_int (3 * c) < real_of_int (5 * p)"
      using c by (simp add: field_simps)
    also have "\<dots> \<longleftrightarrow> 3 * c < 5 * p" by (rule of_int_less_iff)
    finally show ?thesis .
  qed
  have p85: "85 < percentage p c \<longleftrightarrow> 17 * c < 20 * p"
    using percentage_gt_85[OF assms(1,2), of p] percentage_le_85[OF assms(1,3)] by fastforce
  have p60: "60 < percentage p c \<longleftrightarrow> 3 * c < 5 * p"
    using percentage_gt_60[OF assms(1,2), of p] percentage_le_60[OF assms(1,3)] by fastforce
  have imp: "17 * c < 20 * p \<Longrightarrow> 3 * c < 5 * p" using assms(1) by simp
  show ?thesis
    unfolding statusOf_def p85 p60 r85 r60 not_less[symmetric] using imp by auto
qed

theorem status_tiers_witness:
  "statusOf 17 20 = Moderate \<and> statusOf 3 5 = Normal \<and> statusOf 4999 5880 = Overcrowded
   \<and> (0::int) < 20 \<and> (20::int) \<le> 2 ^ 50"
  using status_tiers[of 20 17] status_tiers[of 5 3] status_tiers[of 5880 4999]
  by simp

text \<open>
  C1, as the claim states it, fails for a large capacity. With the capacity
  2000000000000007 and the population 1700000000000006 the quotient exceeds \<open>0.85\<close>,
  by less than the spacing of the Numbers there: the division rounds to the Number
  nearest to \<open>0.85\<close>, the percentage is exactly \<open>85\<close> and the status is
  \<^verbatim>\<open>moderate\<close>.
\<close>

theorem status_moderate_above_threshold:
  "statusOf 1700000000000006 2000000000000007 = Moderate
   \<and> 85 / 100 < real_of_int 1700000000000006 / real_of_int 2000000000000007"
  by (simp add: statusOf_def percentage_def num_mul_def num_div_def fl_eval)

section \<open>Density\<close>

lemma densityOf_120:
  "densityOf 0 120 = 0" "densityOf 1 120 = 1" "densityOf 2 120 = 2" "densityOf 3 120 = 3"
  "densityOf 4 120 = 4" "densityOf 5 120 = 5" "densityOf 6 120 = 6" "densityOf 7 120 = 7"
  "densityOf 8 120 = 8" "densityOf 9 120 = 9" "densityOf 10 120 = 10" "densityOf 11 120 =
  11" "densityOf 12 120 = 12" "densityOf 13 120 = 13" "densityOf 14 120 = 14" "densityOf 15
  120 = 15" "densityOf 16 120 = 16" "densityOf 17 120 = 17" "densityOf 18 120 = 18"
  "densityOf 19 120 = 19" "densityOf 20 120 = 20" "densityOf 21 120 = 21" "densityOf 22 120
  = 22" "densityOf 23 120 = 23" "densityOf 24 120 = 24" "densityOf 25 120 = 25" "densityOf
  26 120 = 26" "densityOf 27 120 = 27" "densityOf 28 120 = 28" "densityOf 29 120 = 29"
  "densityOf 30 120 = 30" "densityOf 31 120 = 31" "densityOf 32 120 = 32" "densityOf 33 120
  = 33" "densityOf 34 120 = 34" "densityOf 35 120 = 35" "densityOf 36 120 = 36" "densityOf
  37 120 = 37" "densityOf 38 120 = 38" "densityOf 39 120 = 39" "densityOf 40 120 = 40"
  "densityOf 41 120 = 41" "densityOf 42 120 = 42" "densityOf 43 120 = 43" "densityOf 44 120
  = 44" "densityOf 45 120 = 45" "densityOf 46 120 = 46" "densityOf 47 120 = 47" "densityOf
  48 120 = 48" "densityOf 49 120 = 49" "densityOf 50 120 = 50" "densityOf 51 120 = 51"
  "densityOf 52 120 = 52" "densityOf 53 120 = 53" "densityOf 54 120 = 54" "densityOf 55 120
  = 55" "densityOf 56 120 = 56" "densityOf 57 120 = 57" "densityOf 58 120 = 58" "densityOf
  59 120 = 59" "densityOf 60 120 = 60" "densityOf 61 120 = 61" "densityOf 62 120 = 62"
  "densityOf 63 120 = 63" "densityOf 64 120 = 64" "densityOf 65 120 = 65" "densityOf 66 120
  = 66" "densityOf 67 120 = 67" "densityOf 68 120 = 68" "densityOf 69 120 = 69" "densityOf
  70 120 = 70" "densityOf 71 120 = 71" "densityOf 72 120 = 72" "densityOf 73 120 = 73"
  "densityOf 74 120 = 74" "densityOf 75 120 = 75" "densityOf 76 120 = 76" "densityOf 77 120
  = 77" "densityOf 78 120 = 78" "densityOf 79 120 = 79" "densityOf 80 120 = 80" "densityOf
  81 120 = 81" "densityOf 82 120 = 82" "densityOf 83 120 = 83" "densityOf 84 120 = 84"
  "densityOf 85 120 = 85" "densityOf 86 120 = 86" "densityOf 87 120 = 87" "densityOf 88 120
  = 88" "densityOf 89 120 = 89" "densityOf 90 120 = 90" "densityOf 91 120 = 91" "densityOf
  92 120 = 92" "densityOf 93 120 = 93" "densityOf 94 120 = 94" "densityOf 95 120 = 95"
  "densityOf 96 120 = 96" "densityOf 97 120 = 97" "densityOf 98 120 = 98" "densityOf 99 120
  = 99" "densityOf 100 120 = 100" "densityOf 101 120 = 101" "densityOf 102 120 = 102"
  "densityOf 103 120 = 103" "densityOf 104 120 = 104" "densityOf 105 120 = 105" "densityOf
  106 120 = 106" "densityOf 107 120 = 107" "densityOf 108 120 = 108" "densityOf 109 120 =
  109" "densityOf 110 120 = 110" "densityOf 111 120 = 111" "densityOf 112 120 = 112"
  "densityOf 113 120 = 113" "densityOf 114 120 = 114" "densityOf 115 120 = 115" "densityOf
  116 120 = 116" "densityOf 117 120 = 117" "densityOf 118 120 = 118" "densityOf 119 120 =
  119" "densityOf 120 120 = 120"
  by (simp_all add: densityOf_def num_mul_def num_div_def fl_eval)

lemma upto_120:
  assumes "0 \<le> num" "num \<le> (120::int)"
  shows "num = 0 \<or> num = 1 \<or> num = 2 \<or> num = 3 \<or> num = 4 \<or> num = 5 \<or> num =
    6 \<or> num = 7 \<or> num = 8 \<or> num = 9 \<or> num = 10 \<or> num = 11 \<or> num = 12
    \<or> num = 13 \<or> num = 14 \<or> num = 15 \<or> num = 16 \<or> num = 17 \<or> num = 18
    \<or> num = 19 \<or> num = 20 \<or> num = 21 \<or> num = 22 \<or> num = 23 \<or> num = 24
    \<or> num = 25 \<or> num = 26 \<or> num = 27 \<or> num = 28 \<or> num = 29 \<or> num = 30
    \<or> num = 31 \<or> num = 32 \<or> num = 33 \<or> num = 34 \<or> num = 35 \<or> num = 36
    \<or> num = 37 \<or> num = 38 \<or> num = 39 \<or> num = 40 \<or> num = 41 \<or> num = 42
    \<or> num = 43 \<or> num = 44 \<or> num = 45 \<or> num = 46 \<or> num = 47 \<or> num = 48
    \<or> num = 49 \<or> num = 50 \<or> num = 51 \<or> num = 52 \<or> num = 53 \<or> num = 54
    \<or> num = 55 \<or> num = 56 \<or> num = 57 \<or> num = 58 \<or> num = 59 \<or> num = 60
    \<or> num = 61 \<or> num = 62 \<or> num = 63 \<or> num = 64 \<or> num = 65 \<or> num = 66
    \<or> num = 67 \<or> num = 68 \<or> num = 69 \<or> num = 70 \<or> num = 71 \<or> num = 72
    \<or> num = 73 \<or> num = 74 \<or> num = 75 \<or> num = 76 \<or> num = 77 \<or> num = 78
    \<or> num = 79 \<or> num = 80 \<or> num = 81 \<or> num = 82 \<or> num = 83 \<or> num = 84
    \<or> num = 85 \<or> num = 86 \<or> num = 87 \<or> num = 88 \<or> num = 89 \<or> num = 90
    \<or> num = 91 \<or> num = 92 \<or> num = 93 \<or> num = 94 \<or> num = 95 \<or> num = 96
    \<or> num = 97 \<or> num = 98 \<or> num = 99 \<or> num = 100 \<or> num = 101 \<or> num =
    102 \<or> num = 103 \<or> num = 104 \<or> num = 105 \<or> num = 106 \<or> num = 107 \<or>
    num = 108 \<or> num = 109 \<or> num = 110 \<or> num = 111 \<or> num = 112 \<or> num = 113
    \<or> num = 114 \<or> num = 115 \<or> num = 116 \<or> num = 117 \<or> num = 118 \<or> num
    = 119 \<or> num = 120"
  using assms by presburger

lemma densityOf_120_all:
  assumes "0 \<le> n" "n \<le> 120"
  shows "densityOf n 120 = n"
  using upto_120[OF assms] by (elim disjE) (simp_all only: densityOf_120)

lemma tiny_le: "1 / 2 ^ 45 \<le> (x::real) \<Longrightarrow> 2 powi (- 1022) \<le> x"
proof -
  assume a: "1 / 2 ^ 45 \<le> x"
  have "(2::real) powi (- 1022) \<le> 2 powi (- 45)" by (rule powi_mono) simp
  also have "(2::real) powi (- 45) = 1 / 2 ^ nat 45" by (rule powi_neg) simp
  also have "\<dots> = 1 / 2 ^ 45" by simp
  finally show ?thesis using a by linarith
qed

lemma densityOf_inexact:
  assumes c: "0 < c" "c \<le> 2 ^ 44" and p: "0 < p" "p \<le> 2 ^ 44"
    and n: "n * c < 120 * p" "120 * p < (n + 1) * c"
  shows "densityOf p c = n"
proof -
  define X where "X = real_of_int p / real_of_int c"
  define A where "A = fl X"
  define B where "B = A * 120"
  define D where "D = fl B"
  define E where "E = X / 2 ^ 53"
  define I where "I = 1 / real_of_int c"
  have C: "0 < real_of_int c" "real_of_int c \<le> 2 ^ 44"
    using c int_le_pow2[of c 44] by simp_all
  have "1 \<le> p" using p by simp
  then have P: "1 \<le> real_of_int p" "real_of_int p \<le> 2 ^ 44"
    using p int_le_pow2[of p 44] by simp_all
  have I: "1 / 2 ^ 44 \<le> I" using C by (simp add: I_def field_simps)
  have "1 / real_of_int c \<le> real_of_int p / real_of_int c"
    using P(1) C(1) by (intro divide_right_mono) simp_all
  then have XI: "I \<le> X" by (simp add: X_def I_def)
  have E0: "0 \<le> E" "E = X / 2 ^ 53" using XI I by (simp_all add: E_def)
  have e1: "E = (real_of_int p * I) / 2 ^ 53" by (simp add: E_def X_def I_def)
  have "real_of_int p * I \<le> 2 ^ 44 * I" using P(2) I by (intro mult_right_mono) simp_all
  then have "(real_of_int p * I) / 2 ^ 53 \<le> (2 ^ 44 * I) / 2 ^ 53"
    by (intro divide_right_mono) simp_all
  moreover have "(2 ^ 44 * I) / 2 ^ 53 = I / 512" by simp
  ultimately have "E \<le> I / 512" using e1 by linarith
  then have EI: "512 * E \<le> I" by linarith
  have Xt: "1 / 2 ^ 45 \<le> X" using XI I by (simp add: order_trans[of "1 / 2 ^ 45" "1 / 2 ^ 44"])
  have eA: "\<bar>A - X\<bar> \<le> E" unfolding A_def E_def using tiny_le[OF Xt] by (rule fl_err)
  have XE: "2 * E \<le> X" using E0(1) by (simp add: E_def)
  have k: "(1::real) / 2 ^ 44 = 2 * (1 / 2 ^ 45)" by simp
  have At: "1 / 2 ^ 45 \<le> A" using eA XE XI I k by linarith
  have eB: "\<bar>B - 120 * X\<bar> \<le> 120 * E" using eA by (simp add: B_def)
  have Bt: "1 / 2 ^ 45 \<le> B" using At by (simp add: B_def)
  have eD0: "\<bar>D - B\<bar> \<le> B / 2 ^ 53" unfolding D_def using tiny_le[OF Bt] by (rule fl_err)
  have "B \<le> 120 * X + 120 * E" using eB by linarith
  then have "B / 2 ^ 53 \<le> (120 * X + 120 * E) / 2 ^ 53" by (intro divide_right_mono) simp_all
  moreover have "(120 * X + 120 * E) / 2 ^ 53 = 120 * E + 120 * E / 2 ^ 53"
    by (simp add: E_def add_divide_distrib)
  moreover have "120 * E / 2 ^ 53 \<le> E" using E0(1) by simp
  ultimately have eD: "\<bar>D - B\<bar> \<le> 121 * E" using eD0 by linarith
  have eDX: "\<bar>D - 120 * X\<bar> \<le> 241 * E" using eD eB by linarith
  have "n * c + 1 \<le> 120 * p" using n(1) by simp
  then have "real_of_int (n * c + 1) \<le> real_of_int (120 * p)" using of_int_le_iff by blast
  then have "(real_of_int n * real_of_int c + 1) / real_of_int c \<le> (120 * real_of_int p) / real_of_int c"
    using C(1) by (intro divide_right_mono) simp_all
  moreover have "(real_of_int n * real_of_int c + 1) / real_of_int c = real_of_int n + I"
    using C(1) by (simp add: I_def field_simps)
  ultimately have lo: "real_of_int n + I \<le> 120 * X" by (simp add: X_def)
  have "120 * p + 1 \<le> (n + 1) * c" using n(2) by simp
  then have "real_of_int (120 * p + 1) \<le> real_of_int ((n + 1) * c)" using of_int_le_iff by blast
  then have "(120 * real_of_int p + 1) / real_of_int c \<le> ((real_of_int n + 1) * real_of_int c) / real_of_int c"
    using C(1) by (intro divide_right_mono) simp_all
  moreover have "(120 * real_of_int p + 1) / real_of_int c = 120 * X + I"
    using C(1) by (simp add: X_def I_def field_simps)
  ultimately have hi: "120 * X + I \<le> real_of_int n + 1" using C(1) by simp
  have Ipos: "0 < I" using C(1) by (simp add: I_def)
  have "real_of_int n \<le> D" "D < real_of_int n + 1" using eDX lo hi EI E0(1) Ipos by linarith+
  then have "\<lfloor>D\<rfloor> = n" by (intro floor_unique) simp_all
  then show ?thesis
    by (simp add: densityOf_def num_mul_def num_div_def D_def B_def A_def X_def)
qed

lemma densityOf_ratio:
  assumes "0 < c" "120 * p = n * c"
  shows "densityOf p c = densityOf n 120"
proof -
  have "real_of_int (120 * p) = real_of_int (n * c)" using assms(2) by simp
  then have "real_of_int p * 120 = real_of_int n * real_of_int c" by (simp add: mult.commute)
  then have eq: "real_of_int p / real_of_int c = real_of_int n / 120"
    using assms(1) by (simp add: frac_eq_eq)
  show ?thesis unfolding densityOf_def num_div_def eq by simp
qed

text \<open>
  C2, as the code has it. For every capacity \<open>0 < c \<le> 2 ^ 44\<close> and population
  \<open>0 \<le> p \<le> 2 ^ 44\<close>, the density is the floor of the exact value of \<open>(p / c) * 120\<close>
  whenever the population is at most the capacity or that value is not an integer; for
  \<open>p = 4625\<close> and \<open>c = 5880\<close> it is \<open>94\<close>. A value that is not an integer lies at least
  \<open>1 / c\<close> from the next integers, farther than the two roundings can move it; when the
  value is one of the integers \<open>0, \<dots>, 120\<close> the rounded product is that integer, by
  evaluation.
\<close>

theorem density_exact:
  assumes "0 < c" "c \<le> 2 ^ 44" "0 \<le> p" "p \<le> 2 ^ 44" "p \<le> c \<or> \<not> c dvd 120 * p"
  shows "densityOf p c = \<lfloor>real_of_int p / real_of_int c * 120\<rfloor>"
proof -
  define n where "n = (120 * p) div c"
  have fl: "\<lfloor>real_of_int p / real_of_int c * 120\<rfloor> = n"
  proof -
    have "real_of_int p / real_of_int c * 120 = real_of_int (120 * p) / real_of_int c" by simp
    then show ?thesis by (simp only: floor_divide_of_int_eq n_def)
  qed
  have n0: "0 \<le> n" using assms by (simp add: n_def pos_imp_zdiv_nonneg_iff)
  have dm: "120 * p = n * c + (120 * p) mod c" by (simp add: n_def)
  show ?thesis
  proof (cases "(120 * p) mod c = 0")
    case True
    then have "c dvd 120 * p" by (simp add: dvd_eq_mod_eq_0)
    then have pc: "p \<le> c" using assms(5) by blast
    have n1: "n \<le> 120"
    proof -
      have "(120 * p) div c \<le> (120 * c) div c" using pc assms(1) by (intro zdiv_mono1) simp_all
      then show ?thesis using assms(1) by (simp add: n_def)
    qed
    have "120 * p = n * c" using dm True by simp
    then have "densityOf p c = densityOf n 120" using assms(1) by (intro densityOf_ratio)
    then show ?thesis using densityOf_120_all[OF n0 n1] fl by simp
  next
    case False
    have m: "0 < (120 * p) mod c" "(120 * p) mod c < c"
      using False assms(1) pos_mod_sign[of c "120 * p"] pos_mod_bound[of c "120 * p"] by linarith+
    have p: "0 < p" using False assms(3) by (cases "p = 0") simp_all
    have "n * c < 120 * p" using dm m(1) by linarith
    moreover have "120 * p < (n + 1) * c" using dm m(2) by (simp add: algebra_simps)
    ultimately have "densityOf p c = n" using assms p by (intro densityOf_inexact)
    then show ?thesis using fl by simp
  qed
qed

theorem density_exact_witness:
  "(0::int) < 5880 \<and> (5880::int) \<le> 2 ^ 44 \<and> (0::int) \<le> 4625 \<and> (4625::int) \<le> 5880
   \<and> densityOf 4625 5880 = 94
   \<and> \<not> (39::int) dvd 120 * 41 \<and> densityOf 41 39 = 126"
  using density_exact[of 5880 4625] density_exact[of 39 41] by simp

text \<open>
  C2, as the claim states it, fails above the capacity. For \<open>p = 41\<close> and \<open>c = 40\<close>
  the exact value of \<open>(p / c) * 120\<close> is \<open>123\<close>. The Number nearest to \<open>41 / 40\<close> is
  smaller than \<open>41 / 40\<close>, its product with \<open>120\<close> rounds to the Number just below
  \<open>123\<close>, and \<^verbatim>\<open>Math.floor\<close> returns \<open>122\<close>.
\<close>

theorem density_below_exact_floor:
  "densityOf 41 40 = 122 \<and> \<lfloor>real_of_int 41 / real_of_int 40 * 120\<rfloor> = 123"
  by (simp add: densityOf_def num_mul_def num_div_def fl_eval)

section \<open>The simulated population\<close>

lemma sample_fields:
  "zoneId (sample rnd (i, z)) = zone_id z"
  "zoneName (sample rnd (i, z)) = zone_name z"
  "capacity (sample rnd (i, z)) = zone_capacity z"
  "population (sample rnd (i, z)) = simulatedPopulation (rnd (3 * i)) (zone_capacity z)"
  "coordinates (sample rnd (i, z)) = (num_mul (rnd (3 * i + 1)) 100, num_mul (rnd (3 * i + 2)) 100)"
  by (simp_all add: sample_def Let_def)

lemma generate_length: "length (generateNetworkActivity rnd) = length ZONES"
  by (simp add: generateNetworkActivity_def)

lemma generate_nth:
  "i < length ZONES \<Longrightarrow> generateNetworkActivity rnd ! i = sample rnd (i, ZONES ! i)"
  by (simp add: generateNetworkActivity_def nth_enumerate_eq)

text \<open>Upper bound of the simulated value: the variance is at most half the capacity.\<close>

lemma simulated_upper:
  assumes r: "0 \<le> r" "r \<le> 1" and c: "0 \<le> c" "c \<le> 2 ^ 53"
  shows "num_add (num_mul (of_int c) (fl (3 / 10))) (num_mul (num_mul r (of_int c)) (1 / 2))
       \<le> fl (fl (of_int c * fl (3 / 10)) + fl (of_int c * (1 / 2)))"
proof -
  have C: "0 \<le> real_of_int c" using c by simp
  have "0 \<le> r * real_of_int c" "r * real_of_int c \<le> real_of_int c"
    using r C by (simp_all add: mult_left_le_one_le)
  then have "fl (r * real_of_int c) \<le> fl (real_of_int c)" by (rule fl_mono)
  then have 1: "fl (r * real_of_int c) \<le> real_of_int c" using c by (simp add: fl_int)
  have 0: "0 \<le> fl (r * real_of_int c)" using r C by (intro fl_nonneg) simp
  have "fl (fl (r * real_of_int c) * (1 / 2)) \<le> fl (real_of_int c * (1 / 2))"
    using 0 1 by (intro fl_mono) simp_all
  moreover have "0 \<le> fl (fl (r * real_of_int c) * (1 / 2))" using 0 by (intro fl_nonneg) simp
  moreover have "0 \<le> fl (real_of_int c * fl (3 / 10))"
    using C by (intro fl_nonneg mult_nonneg_nonneg) simp_all
  ultimately have "fl (fl (real_of_int c * fl (3 / 10)) + fl (fl (r * real_of_int c) * (1 / 2)))
      \<le> fl (fl (real_of_int c * fl (3 / 10)) + fl (real_of_int c * (1 / 2)))"
    by (intro fl_mono) simp_all
  then show ?thesis by (simp add: num_add_def num_mul_def)
qed

lemma simulated_lower:
  assumes r: "0 \<le> r" and c: "0 \<le> c"
  shows "0 \<le> num_add (num_mul (of_int c) (fl (3 / 10))) (num_mul (num_mul r (of_int c)) (1 / 2))"
proof -
  have C: "0 \<le> real_of_int c" using c by simp
  have "0 \<le> fl (r * real_of_int c)" using r C by (intro fl_nonneg) simp
  then have "0 \<le> fl (fl (r * real_of_int c) * (1 / 2))" by (intro fl_nonneg) simp
  moreover have "0 \<le> fl (real_of_int c * fl (3 / 10))"
    using C by (intro fl_nonneg mult_nonneg_nonneg) simp_all
  ultimately show ?thesis unfolding num_add_def num_mul_def by (intro fl_nonneg) simp
qed

lemma zone_caps:
  "\<forall>z\<in>set ZONES. 0 < zone_capacity z \<and> zone_capacity z \<le> 5880
     \<and> fl (fl (of_int (zone_capacity z) * fl (3 / 10)) + fl (of_int (zone_capacity z) * (1 / 2)))
         = of_int (8 * zone_capacity z div 10)"
  by (simp add: ZONES_def fl_eval)


lemma simulatedPopulation_bounds:
  assumes z: "z \<in> set ZONES" and r: "0 \<le> r" "r < 1"
  shows "0 \<le> simulatedPopulation r (zone_capacity z)"
    and "simulatedPopulation r (zone_capacity z) \<le> 8 * zone_capacity z div 10"
proof -
  let ?c = "zone_capacity z"
  have c: "0 < ?c" "?c \<le> 5880"
    and v: "fl (fl (of_int ?c * fl (3 / 10)) + fl (of_int ?c * (1 / 2))) = of_int (8 * ?c div 10)"
    using zone_caps z by blast+
  show "0 \<le> simulatedPopulation r ?c"
    unfolding simulatedPopulation_def Let_def using simulated_lower[of r ?c] r c by simp
  have "num_add (num_mul (of_int ?c) (fl (3 / 10))) (num_mul (num_mul r (of_int ?c)) (1 / 2))
      \<le> of_int (8 * ?c div 10)"
    using simulated_upper[of r ?c] r c v by simp
  then show "simulatedPopulation r ?c \<le> 8 * ?c div 10"
    unfolding simulatedPopulation_def Let_def by (simp add: floor_le_iff del: of_int_mult)
qed

lemma simulated_reading:
  assumes "simulated d"
  shows "\<exists>z\<in>set ZONES. zoneId d = zone_id z \<and> capacity d = zone_capacity z
           \<and> 0 \<le> population d \<and> population d \<le> 8 * capacity d div 10
           \<and> status d = statusOf (population d) (capacity d)"
proof -
  from assms obtain rnd run clk where rnd: "\<forall>k. 0 \<le> rnd k \<and> rnd k < 1"
    and d: "d \<in> set (applyDBSCAN run clk (generateNetworkActivity rnd))"
    unfolding simulated_def by blast
  let ?g = "generateNetworkActivity rnd"
  from d obtain i where i: "i < length ?g" and di: "d = applyDBSCAN run clk ?g ! i"
    by (auto simp: in_set_conv_nth applyDBSCAN_length)
  have iz: "i < length ZONES" using i by (simp add: generate_length)
  let ?z = "ZONES ! i"
  have z: "?z \<in> set ZONES" using iz by simp
  have d': "d = classify (run (map coordinates ?g) 30 2) clk (i, sample rnd (i, ?z))"
    using di i iz by (simp add: applyDBSCAN_nth generate_nth)
  have r: "0 \<le> rnd (3 * i)" "rnd (3 * i) < 1" using rnd by simp_all
  show ?thesis
    using z simulatedPopulation_bounds[OF z r]
    by (intro bexI[of _ ?z]) (simp_all add: d' classify_fields sample_fields)
qed

lemma not_overcrowded:
  assumes "0 < c" "0 \<le> p" "p \<le> 8 * c div 10"
  shows "real_of_int p / real_of_int c < 85 / 100" and "statusOf p c \<noteq> Overcrowded"
proof -
  have "10 * (8 * c div 10) \<le> 8 * c" by presburger
  then have le: "10 * p \<le> 8 * c" using assms(3) by linarith
  then have "real_of_int (10 * p) \<le> real_of_int (8 * c)" using of_int_le_iff by blast
  then have "real_of_int p / real_of_int c \<le> 8 / 10" using assms(1) by (simp add: field_simps)
  then show "real_of_int p / real_of_int c < 85 / 100" by linarith
  have "20 * p \<le> 17 * c" using le assms(1) by linarith
  then have "percentage p c \<le> 85" using assms(1,2) by (intro percentage_le_85)
  then show "statusOf p c \<noteq> Overcrowded" by (simp add: statusOf_def)
qed



lemma summarize_fields:
  "totalPopulation (summarize docs) =
     foldl (\<lambda>sum d. num_add sum (of_int (population d))) 0 (groupFirst (sortDesc docs))"
  "activeZones (summarize docs) = length (filter (\<lambda>d. 0 < population d) (groupFirst (sortDesc docs)))"
  "overcrowdedZones (summarize docs) =
     length (filter (\<lambda>d. status d = Overcrowded) (groupFirst (sortDesc docs)))"
  "totalZones (summarize docs) = length ZONES"
  by (simp_all add: summarize_def Let_def foldl_map filter_map comp_def case_prod_beta)


text \<open>
  C10. For random values in \<open>[0, 1)\<close> every signal of \<^verbatim>\<open>generateNetworkActivity\<close> has a
  population of at most \<open>\<lfloor>0.8 * capacity\<rfloor>\<close>, so its quotient by the capacity is below
  \<open>0.85\<close>; every reading that \<^verbatim>\<open>applyDBSCAN\<close> builds from these signals has status
  \<^verbatim>\<open>normal\<close> or \<^verbatim>\<open>moderate\<close>; and the summary of any store of such readings counts no
  overcrowded zone.
\<close>

theorem overcrowded_unreachable:
  assumes "\<forall>k. 0 \<le> rnd k \<and> rnd k < 1"
  shows "(\<forall>s\<in>set (generateNetworkActivity rnd).
            population s \<le> \<lfloor>8 / 10 * real_of_int (capacity s)\<rfloor>
          \<and> real_of_int (population s) / real_of_int (capacity s) < 85 / 100)
       \<and> (\<forall>d\<in>set (applyDBSCAN run clk (generateNetworkActivity rnd)).
            status d = Normal \<or> status d = Moderate)
       \<and> ((\<forall>d\<in>set docs. simulated d) \<longrightarrow> overcrowdedZones (summarize docs) = 0)"
proof (intro conjI ballI impI)
  fix s assume "s \<in> set (generateNetworkActivity rnd)"
  then obtain i where i: "i < length ZONES" and s: "s = sample rnd (i, ZONES ! i)"
    by (auto simp: in_set_conv_nth generate_length generate_nth)
  let ?z = "ZONES ! i"
  have z: "?z \<in> set ZONES" using i by simp
  have r: "0 \<le> rnd (3 * i)" "rnd (3 * i) < 1" using assms by simp_all
  have c: "0 < zone_capacity ?z" using zone_caps z by blast
  have b: "0 \<le> population s" "population s \<le> 8 * capacity s div 10"
    using simulatedPopulation_bounds[OF z r] by (simp_all add: s sample_fields)
  have "8 / 10 * real_of_int (capacity s) = real_of_int (8 * capacity s) / real_of_int 10" by simp
  then have "\<lfloor>8 / 10 * real_of_int (capacity s)\<rfloor> = 8 * capacity s div 10"
    by (simp only: floor_divide_of_int_eq)
  then show "population s \<le> \<lfloor>8 / 10 * real_of_int (capacity s)\<rfloor>" using b by simp
  show "real_of_int (population s) / real_of_int (capacity s) < 85 / 100"
    using not_overcrowded(1)[of "capacity s" "population s"] b c by (simp add: s sample_fields)
next
  fix d assume "d \<in> set (applyDBSCAN run clk (generateNetworkActivity rnd))"
  then have "simulated d" using assms unfolding simulated_def by blast
  then obtain z where z: "z \<in> set ZONES" "capacity d = zone_capacity z"
      "0 \<le> population d" "population d \<le> 8 * capacity d div 10"
      "status d = statusOf (population d) (capacity d)"
    using simulated_reading by blast
  have "0 < capacity d" using zone_caps z(1,2) by simp
  then have "status d \<noteq> Overcrowded" using not_overcrowded(2) z by simp
  then show "status d = Normal \<or> status d = Moderate" by (cases "status d") simp_all
next
  assume a: "\<forall>d\<in>set docs. simulated d"
  have "status d \<noteq> Overcrowded" if "d \<in> set (groupFirst (sortDesc docs))" for d
  proof -
    have "simulated d" using that a groupFirst_subset set_sortDesc by blast
    then obtain z where z: "z \<in> set ZONES" "capacity d = zone_capacity z"
      "0 \<le> population d" "population d \<le> 8 * capacity d div 10"
      "status d = statusOf (population d) (capacity d)"
      using simulated_reading by blast
    have "0 < capacity d" using zone_caps z(1,2) by simp
    then show ?thesis using not_overcrowded(2) z by simp
  qed
  then have "filter (\<lambda>d. status d = Overcrowded) (groupFirst (sortDesc docs)) = []"
    by (auto simp: filter_empty_conv)
  then show "overcrowdedZones (summarize docs) = 0" by (simp add: summarize_fields)
qed

theorem overcrowded_unreachable_witness:
  "(0::real) \<le> 1 / 2 \<and> (1 / 2 :: real) < 1
   \<and> capacity (generateNetworkActivity (\<lambda>k. 1 / 2) ! 1) = 250
   \<and> population (generateNetworkActivity (\<lambda>k. 1 / 2) ! 1) = 137
   \<and> population (generateNetworkActivity (\<lambda>k. 1 / 2) ! 1)
        \<le> \<lfloor>8 / 10 * real_of_int (capacity (generateNetworkActivity (\<lambda>k. 1 / 2) ! 1))\<rfloor>
   \<and> status (applyDBSCAN (\<lambda>cs eps m. []) (\<lambda>i. 0) (generateNetworkActivity (\<lambda>k. 1 / 2)) ! 1) = Normal"
proof -
  let ?g = "generateNetworkActivity (\<lambda>k. 1 / 2)"
  have h: "\<forall>k::nat. (0::real) \<le> 1 / 2 \<and> (1 / 2 :: real) < 1" by simp
  have i: "1 < length ZONES" by (simp add: ZONES_def)
  then have m: "?g ! 1 \<in> set ?g" by (intro nth_mem) (simp add: generate_length)
  note t = overcrowded_unreachable [of "\<lambda>k. 1 / 2" "\<lambda>cs eps m. []" "\<lambda>i. 0" "[]", OF h]
  from t m have b: "population (?g ! 1) \<le> \<lfloor>8 / 10 * real_of_int (capacity (?g ! 1))\<rfloor>" by blast
  have c: "capacity (?g ! 1) = 250" using i by (simp add: generate_nth sample_fields) (simp add: ZONES_def)
  have p: "population (?g ! 1) = 137"
    using i by (simp add: generate_nth sample_fields)
      (simp add: ZONES_def simulatedPopulation_def Let_def num_add_def num_mul_def fl_eval)
  have "status (applyDBSCAN (\<lambda>cs eps m. []) (\<lambda>i. 0) ?g ! 1) = statusOf 137 250"
    using i p c by (simp add: applyDBSCAN_nth generate_length classify_fields del: One_nat_def)
  moreover have "statusOf 137 250 = Normal"
    by (simp add: statusOf_def percentage_def num_mul_def num_div_def fl_eval)
  ultimately show ?thesis using b c p by simp
qed

section \<open>The signals of a tick\<close>

lemma number_below_one:
  assumes n: "is_number r" and r: "0 \<le> r" "r < 1"
  shows "r \<le> 1 - 1 / 2 ^ 53"
proof (rule ccontr)
  assume "\<not> r \<le> 1 - 1 / 2 ^ 53"
  then have big: "1 - 1 / 2 ^ 53 < r" by simp
  then have pos: "0 < r" by (simp add: less_le_trans[of 0 "1 - 1 / 2 ^ 53" r] le_less)
  have "(2::real) powi (- 1) \<le> r" using big by simp
  then have "- 1 \<le> expo r" by (rule expo_ge)
  moreover have "r < 2 powi 0" using r by simp
  then have "expo r < 0" using pos by (intro expo_less)
  ultimately have e: "expo r = - 1" by simp
  have q: "qexp r = - 53" by (simp add: qexp_def e)
  have p53: "(2::real) powi (- 53) = 1 / 2 ^ 53" using powi_neg[of 53] by simp
  define m where "m = rne (r / 2 powi (- 53))"
  have "fl r = of_int m * 2 powi (- 53)" using pos by (simp add: fl_pos q m_def)
  then have rm: "r = of_int m / 2 ^ 53" using n by (simp add: is_number_def p53)
  then have "real_of_int m = r * 2 ^ 53" by simp
  also have "\<dots> < 1 * 2 ^ 53" using r(2) by (intro mult_strict_right_mono) simp_all
  finally have "real_of_int m < real_of_int (2 ^ 53)" by simp
  then have "m < 2 ^ 53" using of_int_less_iff by blast
  then have "m \<le> 2 ^ 53 - 1" by simp
  then have "real_of_int m \<le> real_of_int (2 ^ 53 - 1)" using of_int_le_iff by blast
  then have "real_of_int m / 2 ^ 53 \<le> real_of_int (2 ^ 53 - 1) / 2 ^ 53"
    by (intro divide_right_mono) simp_all
  then have "r \<le> 1 - 1 / 2 ^ 53" using rm by (simp add: field_simps)
  then show False using big by simp
qed

lemma coordinate_top: "fl ((1 - 1 / 2 ^ 53) * 100) < 100"
  by (simp add: fl_eval)

lemma coordinate_range:
  assumes "is_number r" "0 \<le> r" "r < 1"
  shows "0 \<le> num_mul r 100" and "num_mul r 100 < 100"
proof -
  show "0 \<le> num_mul r 100" unfolding num_mul_def using assms(2) by (intro fl_nonneg) simp
  have "r \<le> 1 - 1 / 2 ^ 53" using assms by (rule number_below_one)
  then have "fl (r * 100) \<le> fl ((1 - 1 / 2 ^ 53) * 100)" using assms(2) by (intro fl_mono) simp_all
  then show "num_mul r 100 < 100" using coordinate_top by (simp add: num_mul_def)
qed

lemma zone_base:
  "\<forall>z\<in>set ZONES. fl (of_int (zone_capacity z) * fl (3 / 10)) = of_int (3 * zone_capacity z div 10)
      \<and> 10 * (3 * zone_capacity z div 10) = 3 * zone_capacity z"
  by (simp add: ZONES_def fl_eval)

lemma half_step:
  assumes m: "0 \<le> m" "m \<le> 2 ^ 52" and x: "0 \<le> x"
  shows "of_int m \<le> x / 2 \<Longrightarrow> of_int m \<le> fl (fl x * (1 / 2))"
    and "x / 2 \<le> of_int m \<Longrightarrow> fl (fl x * (1 / 2)) \<le> of_int m"
proof -
  have m2: "fl (of_int (2 * m)) = of_int (2 * m)" using m by (intro fl_int) simp_all
  have m1: "fl (of_int m) = of_int m" using m by (intro fl_int) simp_all
  {
    assume "of_int m \<le> x / 2"
    then have "real_of_int (2 * m) \<le> x" by simp
    then have "fl (real_of_int (2 * m)) \<le> fl x" using m(1) by (intro fl_mono) simp_all
    then have "real_of_int m \<le> fl x * (1 / 2)" using m2 by simp
    then have "fl (real_of_int m) \<le> fl (fl x * (1 / 2))" using m(1) by (intro fl_mono) simp_all
    then show "of_int m \<le> fl (fl x * (1 / 2))" using m1 by simp
  }
  {
    assume "x / 2 \<le> of_int m"
    then have "x \<le> real_of_int (2 * m)" by simp
    then have "fl x \<le> fl (real_of_int (2 * m))" using x by (intro fl_mono)
    then have "fl x * (1 / 2) \<le> real_of_int m" using m2 by simp
    moreover have "0 \<le> fl x * (1 / 2)" using fl_nonneg[OF x] by simp
    ultimately have "fl (fl x * (1 / 2)) \<le> fl (real_of_int m)" by (intro fl_mono)
    then show "fl (fl x * (1 / 2)) \<le> of_int m" using m1 by simp
  }
qed

lemma simulatedPopulation_near_exact:
  assumes z: "z \<in> set ZONES" and r: "0 \<le> r" "r < 1"
  shows "\<lfloor>of_int (zone_capacity z) * (3 / 10) + r * of_int (zone_capacity z) * (1 / 2)\<rfloor>
           \<le> simulatedPopulation r (zone_capacity z)"
    and "simulatedPopulation r (zone_capacity z)
           \<le> \<lfloor>of_int (zone_capacity z) * (3 / 10) + r * of_int (zone_capacity z) * (1 / 2)\<rfloor> + 1"
proof -
  let ?c = "zone_capacity z"
  define b where "b = 3 * ?c div 10"
  define x where "x = r * real_of_int ?c"
  define N where "N = \<lfloor>real_of_int ?c * (3 / 10) + r * real_of_int ?c * (1 / 2)\<rfloor>"
  define M where "M = N - b"
  have c: "0 < ?c" "?c \<le> 5880" using zone_caps z by blast+
  have base: "fl (real_of_int ?c * fl (3 / 10)) = real_of_int b" "10 * b = 3 * ?c"
    using zone_base z unfolding b_def by blast+
  have b0: "0 \<le> b" "b \<le> 5880" using base(2) c by linarith+
  have bx: "real_of_int ?c * (3 / 10) = real_of_int b"
  proof -
    have "real_of_int (10 * b) = real_of_int (3 * ?c)" using base(2) by simp
    then show ?thesis by simp
  qed
  have x0: "0 \<le> x" "x \<le> 5880"
  proof -
    show "0 \<le> x" using r c by (simp add: x_def)
    have "x \<le> 1 * real_of_int ?c" unfolding x_def using r c by (intro mult_right_mono) simp_all
    then show "x \<le> 5880" using c(2) by simp
  qed
  have "r * real_of_int ?c * (1 / 2) = x / 2" by (simp add: x_def)
  then have arg: "real_of_int ?c * (3 / 10) + r * real_of_int ?c * (1 / 2) = real_of_int b + x / 2"
    using bx by (simp only:)
  have N: "N = \<lfloor>real_of_int b + x / 2\<rfloor>" by (simp only: N_def arg)
  then have Nb: "real_of_int N \<le> real_of_int b + x / 2" "real_of_int b + x / 2 < real_of_int N + 1"
    by linarith+
  have M0: "0 \<le> M"
  proof -
    have "real_of_int b \<le> real_of_int b + x / 2" using x0 by simp
    then have "b \<le> \<lfloor>real_of_int b + x / 2\<rfloor>" by (simp add: le_floor_iff)
    then show ?thesis by (simp add: M_def N)
  qed
  have M1: "M \<le> 2940"
  proof -
    have "real_of_int N \<le> real_of_int b + 2940" using Nb(1) x0(2) by linarith
    then have "N \<le> b + 2940" by (metis of_int_add of_int_le_iff of_int_numeral)
    then show ?thesis by (simp add: M_def)
  qed
  have lo: "real_of_int M \<le> x / 2" using Nb(1) by (simp add: M_def)
  have hi: "x / 2 \<le> real_of_int (M + 1)" using Nb(2) by (simp add: M_def)
  have h1: "real_of_int M \<le> fl (fl x * (1 / 2))"
    using M0 M1 x0(1) lo by (intro half_step(1)) simp_all
  have h2: "fl (fl x * (1 / 2)) \<le> real_of_int (M + 1)"
    using M0 M1 x0(1) hi by (intro half_step(2)) simp_all
  define v where "v = fl (real_of_int b + fl (fl x * (1 / 2)))"
  have N0: "0 \<le> N" "N + 1 \<le> 2 ^ 53" using M0 M1 b0 by (simp_all add: M_def)
  have "fl (real_of_int N) \<le> v" unfolding v_def using h1 N0 by (intro fl_mono) (simp_all add: M_def)
  then have v1: "real_of_int N \<le> v" using N0 by (simp add: fl_int)
  have "v \<le> fl (real_of_int (N + 1))" unfolding v_def
    using h2 b0 M0 h1 by (intro fl_mono) (simp_all add: M_def)
  then have v2: "v \<le> real_of_int (N + 1)" using N0 by (simp add: fl_int del: of_int_add)
  have pop: "simulatedPopulation r ?c = \<lfloor>v\<rfloor>"
    by (simp add: simulatedPopulation_def Let_def num_add_def num_mul_def base v_def x_def)
  show "\<lfloor>real_of_int ?c * (3 / 10) + r * real_of_int ?c * (1 / 2)\<rfloor> \<le> simulatedPopulation r ?c"
    unfolding pop N_def[symmetric] using v1 by (simp only: le_floor_iff)
  show "simulatedPopulation r ?c \<le> \<lfloor>real_of_int ?c * (3 / 10) + r * real_of_int ?c * (1 / 2)\<rfloor> + 1"
    unfolding pop N_def[symmetric] using v2 floor_mono[of v "real_of_int (N + 1)"]
    by (simp del: of_int_add)
qed

text \<open>
  C8, as the code has it. For random values that are Numbers of \<open>[0, 1)\<close> the simulator
  returns one signal per zone of \<^verbatim>\<open>ZONES\<close>, in order, with the zone's id, name and
  capacity. Its population is the floor of \<open>capacity * 0.3 + r * capacity * 0.5\<close> evaluated
  in Numbers, each operation rounded; that is the floor of the exact value or one more.
  Its coordinates are \<open>100 * r\<close> for the next two random values, rounded, and lie in
  \<open>[0, 100)\<close>. The function is total: it returns for every sequence of random values.
\<close>

theorem simulator_signals:
  assumes "\<forall>k. is_number (rnd k) \<and> 0 \<le> rnd k \<and> rnd k < 1"
  shows "length (generateNetworkActivity rnd) = length ZONES
       \<and> (\<forall>i<length ZONES.
            let z = ZONES ! i; s = generateNetworkActivity rnd ! i;
                c = real_of_int (zone_capacity z); r = rnd (3 * i)
            in zoneId s = zone_id z \<and> zoneName s = zone_name z \<and> capacity s = zone_capacity z
             \<and> population s = \<lfloor>num_add (num_mul c (fl (3 / 10))) (num_mul (num_mul r c) (1 / 2))\<rfloor>
             \<and> \<lfloor>c * (3 / 10) + r * c * (1 / 2)\<rfloor> \<le> population s
             \<and> population s \<le> \<lfloor>c * (3 / 10) + r * c * (1 / 2)\<rfloor> + 1
             \<and> coordinates s = (num_mul (rnd (3 * i + 1)) 100, num_mul (rnd (3 * i + 2)) 100)
             \<and> 0 \<le> fst (coordinates s) \<and> fst (coordinates s) < 100
             \<and> 0 \<le> snd (coordinates s) \<and> snd (coordinates s) < 100)"
proof (intro conjI allI impI)
  show "length (generateNetworkActivity rnd) = length ZONES" by (rule generate_length)
next
  fix i assume i: "i < length ZONES"
  let ?z = "ZONES ! i"
  have z: "?z \<in> set ZONES" using i by simp
  have r: "0 \<le> rnd (3 * i)" "rnd (3 * i) < 1" using assms by simp_all
  have x: "is_number (rnd (3 * i + 1))" "0 \<le> rnd (3 * i + 1)" "rnd (3 * i + 1) < 1"
    and y: "is_number (rnd (3 * i + 2))" "0 \<le> rnd (3 * i + 2)" "rnd (3 * i + 2) < 1"
    using assms by simp_all
  show "let z = ZONES ! i; s = generateNetworkActivity rnd ! i;
            c = real_of_int (zone_capacity z); r = rnd (3 * i)
        in zoneId s = zone_id z \<and> zoneName s = zone_name z \<and> capacity s = zone_capacity z
         \<and> population s = \<lfloor>num_add (num_mul c (fl (3 / 10))) (num_mul (num_mul r c) (1 / 2))\<rfloor>
         \<and> \<lfloor>c * (3 / 10) + r * c * (1 / 2)\<rfloor> \<le> population s
         \<and> population s \<le> \<lfloor>c * (3 / 10) + r * c * (1 / 2)\<rfloor> + 1
         \<and> coordinates s = (num_mul (rnd (3 * i + 1)) 100, num_mul (rnd (3 * i + 2)) 100)
         \<and> 0 \<le> fst (coordinates s) \<and> fst (coordinates s) < 100
         \<and> 0 \<le> snd (coordinates s) \<and> snd (coordinates s) < 100"
    unfolding Let_def generate_nth[OF i] sample_fields fst_conv snd_conv
    using simulatedPopulation_near_exact[OF z r] coordinate_range[OF x] coordinate_range[OF y]
    by (simp add: simulatedPopulation_def Let_def)
qed

theorem simulator_signals_witness:
  "is_number (1 / 2)
   \<and> length (generateNetworkActivity (\<lambda>k. 1 / 2)) = 9
   \<and> \<lfloor>250 * (3 / 10) + 1 / 2 * 250 * (1 / 2) :: real\<rfloor> = 137
   \<and> population (generateNetworkActivity (\<lambda>k. 1 / 2) ! 1) = 137
   \<and> coordinates (generateNetworkActivity (\<lambda>k. 1 / 2) ! 1) = (50, 50)"
proof -
  have n: "is_number (1 / 2)" by (simp add: is_number_def fl_eval)
  then have h: "\<forall>k::nat. is_number (1 / 2) \<and> (0::real) \<le> 1 / 2 \<and> (1 / 2 :: real) < 1" by simp
  have i: "1 < length ZONES" by (simp add: ZONES_def)
  have c: "zone_capacity (ZONES ! 1) = 250" by (simp add: ZONES_def)
  note t = simulator_signals [of "\<lambda>k. 1 / 2", OF h]
  from t have len: "length (generateNetworkActivity (\<lambda>k. 1 / 2)) = length ZONES" by (rule conjunct1)
  from t i have "let z = ZONES ! 1; s = generateNetworkActivity (\<lambda>k. 1 / 2) ! 1;
                c = real_of_int (zone_capacity z); r = 1 / 2
            in zoneId s = zone_id z \<and> zoneName s = zone_name z \<and> capacity s = zone_capacity z
             \<and> population s = \<lfloor>num_add (num_mul c (fl (3 / 10))) (num_mul (num_mul r c) (1 / 2))\<rfloor>
             \<and> \<lfloor>c * (3 / 10) + r * c * (1 / 2)\<rfloor> \<le> population s
             \<and> population s \<le> \<lfloor>c * (3 / 10) + r * c * (1 / 2)\<rfloor> + 1
             \<and> coordinates s = (num_mul (1 / 2) 100, num_mul (1 / 2) 100)
             \<and> 0 \<le> fst (coordinates s) \<and> fst (coordinates s) < 100
             \<and> 0 \<le> snd (coordinates s) \<and> snd (coordinates s) < 100"
    by blast
  then have p: "population (generateNetworkActivity (\<lambda>k. 1 / 2) ! 1)
        = \<lfloor>num_add (num_mul 250 (fl (3 / 10))) (num_mul (num_mul (1 / 2) 250) (1 / 2))\<rfloor>"
    and xy: "coordinates (generateNetworkActivity (\<lambda>k. 1 / 2) ! 1) = (num_mul (1 / 2) 100, num_mul (1 / 2) 100)"
    unfolding Let_def c by simp_all
  have v: "\<lfloor>num_add (num_mul 250 (fl (3 / 10))) (num_mul (num_mul (1 / 2) 250) (1 / 2))\<rfloor> = 137"
    "num_mul (1 / 2) 100 = 50"
    by (simp_all add: num_add_def num_mul_def fl_eval)
  show ?thesis using n len p xy v by (simp add: ZONES_def)
qed

text \<open>
  C8, as the claim states it, fails when the exact value lies just below an integer. For
  zone AB2 (capacity 250) and the random value \<open>900719925474099 / 2 ^ 52\<close>, a Number
  just below \<open>0.2\<close>, the exact value of \<open>250 * 0.3 + r * 250 * 0.5\<close> is below \<open>100\<close> and
  its floor is \<open>99\<close>; the variance is a Number just below \<open>25\<close>, its sum with \<open>75\<close>
  lies halfway between \<open>100\<close> and the Number before it and rounds to \<open>100\<close>, and the
  population is \<open>100\<close>.
\<close>

theorem simulator_population_above_exact_floor:
  "is_number (900719925474099 / 4503599627370496)
   \<and> (0::real) \<le> 900719925474099 / 4503599627370496
   \<and> (900719925474099 / 4503599627370496 :: real) < 1
   \<and> zone_id (ZONES ! 1) = ''AB2''
   \<and> zone_capacity (ZONES ! 1) = 250
   \<and> population (generateNetworkActivity (\<lambda>k. 900719925474099 / 4503599627370496) ! 1) = 100
   \<and> \<lfloor>250 * (3 / 10) + 900719925474099 / 4503599627370496 * 250 * (1 / 2) :: real\<rfloor> = 99"
  by (simp add: is_number_def generate_nth sample_fields simulatedPopulation_def Let_def ZONES_def
      num_add_def num_mul_def fl_eval)

section \<open>Summary\<close>




end
